theory Spec2Isabelle
  imports Main "HOL-Library.Sublist"
begin

section \<open>WAutoSend: the scheduled delivery engine of \<open>scheduler.js\<close>\<close>

text \<open>
  The class \<open>WASScheduler\<close> drives a page it does not own. Its methods are embedded as
  functions that pass the scheduler's state explicitly. Everything the page, the clock, the
  clipboard and the extension runtime answer is an observation read from an environment
  record; each observation is a function of the history of effects performed so far, so the
  page may react to what the scheduler did (a composer that clears after a submit, a message
  that shows up two polls later). Every effect the methods perform is appended to that
  history: each \<open>await this.sleep(ms)\<close>, each event dispatched to the page, each clipboard
  call, each status notification. The calls of \<open>this.log\<close> are left out, except for what
  evaluating their arguments does: they write to the console when \<open>debugMode\<close> is set and do
  nothing else. The methods run on one thread and an \<open>await\<close> only suspends the caller, so a
  call that is not interleaved with another is a function from the state it finds to its
  result and the state it leaves; the state in which a call is suspended at an \<open>await\<close> is a
  state like any other, in which another call can be started.
\<close>

subsection \<open>JavaScript values, thrown values and strings\<close>

datatype jsval = JUndefined | JNull | JBool bool | JNum int | JStr string

text \<open>Truthiness as \<open>if (result)\<close> tests it.\<close>

fun truthy :: "jsval \<Rightarrow> bool" where
  "truthy JUndefined = False"
| "truthy JNull = False"
| "truthy (JBool b) = b"
| "truthy (JNum n) = (n \<noteq> 0)"
| "truthy (JStr s) = (s \<noteq> [])"

text \<open>What a \<open>throw\<close> or a rejected promise hands to a \<open>catch\<close>: an \<open>Error\<close> object, which has
  a message, or any other value.\<close>

datatype thrown = ErrorObject string | Thrown jsval

text \<open>The message of the \<open>TypeError\<close> raised when a property is read from \<open>undefined\<close> or
  \<open>null\<close>, in Chrome's wording.\<close>

definition cannotRead :: "string \<Rightarrow> string \<Rightarrow> string" where
  "cannotRead what property =
     ''Cannot read properties of '' @ what @ '' (reading '' @ [CHR 0x27] @ property
       @ [CHR 0x27] @ '')''"

text \<open>\<open>error.message\<close> as a handler evaluates it: the message of an \<open>Error\<close> object; for
  \<open>undefined\<close> and \<open>null\<close> the read itself throws a \<open>TypeError\<close>, whose message is the \<open>Inl\<close>
  result; any other value has no such property and the read gives \<open>undefined\<close> (\<open>None\<close>).\<close>

fun messageOf :: "thrown \<Rightarrow> string + string option" where
  "messageOf (ErrorObject m) = Inr (Some m)"
| "messageOf (Thrown JUndefined) = Inl (cannotRead ''undefined'' ''message'')"
| "messageOf (Thrown JNull) = Inl (cannotRead ''null'' ''message'')"
| "messageOf (Thrown v) = Inr None"

text \<open>A value read that way inside a template string.\<close>

definition interpolated :: "string option \<Rightarrow> string" where
  "interpolated m = (case m of Some t \<Rightarrow> t | None \<Rightarrow> ''undefined'')"

text \<open>A \<open>string\<close> stands for a JavaScript string whose UTF-16 code units are all below 256,
  one \<open>char\<close> per code unit: the texts handed to the scheduler (messages, contact names,
  times, what the clipboard holds) are written this way. What the page shows is any sequence
  of code units. \<open>s.substring(0, n)\<close> and \<open>s.includes(p)\<close> work on either.\<close>

type_synonym codeunit = nat

definition codeUnits :: "string \<Rightarrow> codeunit list" where
  "codeUnits s = map of_char s"

definition substring0 :: "nat \<Rightarrow> 'a list \<Rightarrow> 'a list" where
  "substring0 n s = take n s"

fun includesStr :: "'a list \<Rightarrow> 'a list \<Rightarrow> bool" where
  "includesStr [] p = (p = [])"
| "includesStr (c # cs) p = (take (length p) (c # cs) = p \<or> includesStr cs p)"

text \<open>\<open>s.trim()\<close> strips the white space and the line terminators of ECMAScript from both
  ends: tab, line feed, vertical tab, form feed, carriage return, space, no-break space,
  U+1680, U+2000 to U+200A, U+2028, U+2029, U+202F, U+205F, U+3000 and U+FEFF.\<close>

definition isWhiteSpace :: "codeunit \<Rightarrow> bool" where
  "isWhiteSpace c =
     (c = 0x09 \<or> c = 0x0A \<or> c = 0x0B \<or> c = 0x0C \<or> c = 0x0D \<or> c = 0x20 \<or> c = 0xA0
      \<or> c = 0x1680 \<or> (0x2000 \<le> c \<and> c \<le> 0x200A) \<or> c = 0x2028 \<or> c = 0x2029
      \<or> c = 0x202F \<or> c = 0x205F \<or> c = 0x3000 \<or> c = 0xFEFF)"

definition trimWith :: "('a \<Rightarrow> bool) \<Rightarrow> 'a list \<Rightarrow> 'a list" where
  "trimWith white s = rev (dropWhile white (rev (dropWhile white s)))"

definition trim :: "codeunit list \<Rightarrow> codeunit list" where
  "trim s = trimWith isWhiteSpace s"

definition trimText :: "string \<Rightarrow> string" where
  "trimText s = trimWith (\<lambda>c. isWhiteSpace (of_char c)) s"


fun findIndex :: "('a \<Rightarrow> bool) \<Rightarrow> 'a list \<Rightarrow> nat option" where
  "findIndex P [] = None"
| "findIndex P (x # xs) = (if P x then Some 0 else map_option Suc (findIndex P xs))"

subsection \<open>Schedules, effects and the scheduler's state\<close>

text \<open>A schedule record as the store hands it out. \<open>addSchedule\<close> and \<open>saveSchedule\<close> write a
  string as \<open>message\<close> unless their caller overrides it, but \<open>getSchedules\<close> returns what the
  extension storage or the \<open>localStorage\<close> mirror holds without looking at it, so a record
  need not have a \<open>message\<close> (\<open>None\<close>). A record written by a debug helper may lack
  \<open>contactList\<close>; \<open>contactName\<close> is the older single target.\<close>

record schedule =
  sid :: string
  time :: string
  message :: "string option"
  useClipboard :: bool
  contactList :: "string list option"
  contactName :: "string option"
  sent :: bool
  lastSentDate :: "string option"

type_synonym elem = nat

text \<open>An element of the conversation as the verifier's selector and text match see it: its
  \<open>data-testid\<close> attribute, its classes and its \<open>textContent\<close>.\<close>

record node =
  dataTestid :: "string option"
  classList :: "string list"
  textContent :: "codeunit list"

datatype key = CtrlA | CtrlV | Enter | Tab | Delete | CharKey char

text \<open>What the scheduler does to the page.\<close>

datatype dom_action =
    Focus elem
  | FocusEvents elem
  | Click elem
  | KeyDown elem key
  | KeyUp elem key
  | KeyDownActive key
  | KeyUpActive key
  | ExecSelectAll
  | ExecDelete
  | ExecInsertText string
  | SetContent elem string
  | DispatchEvent elem string

datatype severity = SInfo | SSuccess | SError | SWorking

text \<open>The messages of \<open>updateStatus\<close>, one constructor per template string of the source.\<close>

datatype status_msg =
    NoScheduledMessages
  | NextMessage
  | SendingCount nat
  | SendingPreview string
  | FailedToSend string
  | ScheduleCheckError string
  | MessageSentOk
  | MessageSendFailed
  | OpeningChat string
  | ChatOpened string
  | ChatOpenFailed string

datatype post_action = Refresh | CloseTab

datatype event =
    Sleep int
  | StatusUpdate status_msg severity
  | MessageSent string string string
  | MarkSent string
  | ClipboardWrite string
  | ClipboardRead
  | Dom dom_action
  | PostSendTimer post_action
  | StopScheduler
  | ContextInvalidation
  | ReloadTimer int
  | ShowNotification string string severity

type_synonym history = "event list"

text \<open>\<open>store\<close> is the list under \<open>was_schedules\<close> in \<open>chrome.storage.local\<close>, \<open>mirror\<close> the
  copy of it that the store keeps in the page's \<open>localStorage\<close>.\<close>

record sched =
  isRunning :: bool
  isSending :: bool
  isCheckingSchedules :: bool
  lastSendTime :: int
  sendDelay :: int
  autoRetry :: bool
  store :: "schedule list"
  mirror :: "schedule list"
  trace :: history

text \<open>The observations. \<open>findMessageInputBox\<close>, \<open>findSearchInput\<close> and \<open>isSearchBox\<close> are
  the target resolver's queries over the live page; \<open>content\<close> is
  \<open>el.textContent || el.innerText || ''\<close>; \<open>pageNodes\<close> lists the elements of the document in
  document order. \<open>storageAvailable\<close> says that \<open>chrome.storage.local\<close> exists, \<open>contextValid\<close>
  is \<open>isExtensionContextValid()\<close>; \<open>storageGetError\<close> and \<open>storageSetError\<close> give the message
  of the error with which \<open>chrome.storage.local\<close> rejects a read or a write, if it does;
  \<open>localStorageOk\<close> says that \<open>localStorage\<close> can be read and written.\<close>

record env =
  dateNow :: "history \<Rightarrow> int"
  currentTimeString :: "history \<Rightarrow> string"
  todayString :: "history \<Rightarrow> string"
  findMessageInputBox :: "history \<Rightarrow> elem option"
  findSearchInput :: "history \<Rightarrow> elem option"
  isSearchBox :: "history \<Rightarrow> elem \<Rightarrow> bool"
  content :: "history \<Rightarrow> elem \<Rightarrow> codeunit list"
  pageNodes :: "history \<Rightarrow> node list"
  disconnectedBanner :: "history \<Rightarrow> bool"
  clipboardWriteOk :: "history \<Rightarrow> string \<Rightarrow> bool"
  clipboardReadText :: "history \<Rightarrow> string option"
  execInsertTextOk :: "history \<Rightarrow> bool"
  storageReady :: "history \<Rightarrow> bool"
  storageAvailable :: "history \<Rightarrow> bool"
  contextValid :: "history \<Rightarrow> bool"
  storageGetError :: "history \<Rightarrow> string option"
  storageSetError :: "history \<Rightarrow> string option"
  localStorageOk :: "history \<Rightarrow> bool"
  postSendSetting :: "history \<Rightarrow> string option"

definition emit :: "event \<Rightarrow> sched \<Rightarrow> sched" where
  "emit e s = s\<lparr>trace := trace s @ [e]\<rparr>"

definition sleep :: "int \<Rightarrow> sched \<Rightarrow> sched" where
  "sleep ms s = emit (Sleep ms) s"

definition dom :: "dom_action \<Rightarrow> sched \<Rightarrow> sched" where
  "dom a s = emit (Dom a) s"

text \<open>A straight-line sequence of effects.\<close>

definition steps :: "(sched \<Rightarrow> sched) list \<Rightarrow> sched \<Rightarrow> sched" where
  "steps fs s = fold (\<lambda>f. f) fs s"

text \<open>\<open>updateStatus(status, type)\<close> dispatches a \<open>statusUpdate\<close> event.\<close>

definition updateStatus :: "status_msg \<Rightarrow> severity \<Rightarrow> sched \<Rightarrow> sched" where
  "updateStatus m t s = emit (StatusUpdate m t) s"

subsection \<open>The retry controller: \<open>smartRetry\<close>\<close>

definition backoff :: "nat \<Rightarrow> int" where
  "backoff attempt = min (1000 * 2 ^ (attempt - 1)) 5000"

type_synonym operation = "sched \<Rightarrow> (thrown + jsval) \<times> sched"

text \<open>How one pass of the \<open>try\<close> and its \<open>catch\<close> ends the method, if it does: with the truthy
  result of the operation, or with the \<open>TypeError\<close> that the \<open>catch\<close> itself throws when it
  evaluates \<open>error.message\<close> (the argument of its \<open>this.log\<close>) on a rejection with
  \<open>undefined\<close> or \<open>null\<close>. A falsy result and any other thrown value leave the loop
  running.\<close>

fun returned :: "(thrown + jsval) \<Rightarrow> (thrown + jsval) option" where
  "returned (Inr result) = (if truthy result then Some (Inr result) else None)"
| "returned (Inl error) =
     (case messageOf error of
        Inl typeError \<Rightarrow> Some (Inl (ErrorObject typeError))
      | Inr m \<Rightarrow> None)"

function smartRetryLoop :: "operation \<Rightarrow> nat \<Rightarrow> nat \<Rightarrow> sched \<Rightarrow> (thrown + jsval) \<times> sched" where
  "smartRetryLoop operation maxRetries attempt s =
     (if attempt \<le> maxRetries then
        (let (r, s1) = operation s in
         case returned r of
           Some outcome \<Rightarrow> (outcome, s1)
         | None \<Rightarrow>
             smartRetryLoop operation maxRetries (Suc attempt)
               (if attempt < maxRetries then sleep (backoff attempt) s1 else s1))
      else (Inr (JBool False), s))"
  by pat_completeness auto
termination
  by (relation "measure (\<lambda>(operation, maxRetries, attempt, s). Suc maxRetries - attempt)") auto

definition smartRetry :: "operation \<Rightarrow> nat \<Rightarrow> sched \<Rightarrow> (thrown + jsval) \<times> sched" where
  "smartRetry operation maxRetries s = smartRetryLoop operation maxRetries 1 s"

text \<open>What the controller is specified to do, in the specification's words: the first attempt
  starts at once; attempt \<open>k + 1\<close> starts after the outcome of attempt \<open>k\<close> and a sleep of
  \<open>min(1000 * 2^(k-1), 5000)\<close> milliseconds; the first truthy result is returned, and
  \<open>false\<close> once \<open>maxRetries\<close> attempts have failed, by a falsy result or by throwing, with no
  sleep after the last.\<close>

fun beforeAttempt :: "operation \<Rightarrow> nat \<Rightarrow> sched \<Rightarrow> sched" where
  "beforeAttempt operation 0 s = s"
| "beforeAttempt operation (Suc 0) s = s"
| "beforeAttempt operation (Suc (Suc k)) s =
     sleep (backoff (Suc k)) (snd (operation (beforeAttempt operation (Suc k) s)))"

definition succeeded :: "(thrown + jsval) \<Rightarrow> bool" where
  "succeeded r = (case r of Inr result \<Rightarrow> truthy result | Inl err \<Rightarrow> False)"

definition attemptOk :: "operation \<Rightarrow> sched \<Rightarrow> nat \<Rightarrow> bool" where
  "attemptOk operation s a = succeeded (fst (operation (beforeAttempt operation a s)))"

definition retryOutcome :: "operation \<Rightarrow> nat \<Rightarrow> sched \<Rightarrow> (thrown + jsval) \<times> sched" where
  "retryOutcome operation maxRetries s =
     (case List.find (attemptOk operation s) [1..<Suc maxRetries] of
        Some a \<Rightarrow> operation (beforeAttempt operation a s)
      | None \<Rightarrow> (Inr (JBool False),
                 if maxRetries = 0 then s
                 else snd (operation (beforeAttempt operation maxRetries s))))"

subsection \<open>The send verifier: \<open>waitForMessageSent\<close>\<close>

text \<open>Check 1 of a poll: the trimmed content of the composer found at this moment is empty
  (no composer found reads as the empty string). Check 2: some element that the selector
  \<open>[data-testid="msg-container"], .message-out, .msg-out\<close> matches has a non-empty text that
  includes the first 30 characters of the sent text.\<close>

definition inputCleared :: "env \<Rightarrow> history \<Rightarrow> bool" where
  "inputCleared e h =
     (trim (case findMessageInputBox e h of Some input \<Rightarrow> content e h input | None \<Rightarrow> []) = [])"

definition messageSelector :: "node \<Rightarrow> bool" where
  "messageSelector n =
     (dataTestid n = Some ''msg-container'' \<or> ''message-out'' \<in> set (classList n)
      \<or> ''msg-out'' \<in> set (classList n))"

definition messageFound :: "env \<Rightarrow> string \<Rightarrow> history \<Rightarrow> bool" where
  "messageFound e messageText h =
     list_ex (\<lambda>msg. textContent msg \<noteq> []
                    \<and> includesStr (textContent msg) (codeUnits (substring0 30 messageText)))
       (filter messageSelector (pageNodes e h))"

function waitLoop :: "env \<Rightarrow> string \<Rightarrow> nat \<Rightarrow> sched \<Rightarrow> bool \<times> sched" where
  "waitLoop e messageText i s =
     (if i < 15 then
        (let s1 = sleep 200 s in
         if inputCleared e (trace s1) \<and> messageFound e messageText (trace s1)
         then (True, s1)
         else waitLoop e messageText (Suc i) s1)
      else (False, s))"
  by pat_completeness auto
termination
  by (relation "measure (\<lambda>(e, messageText, i, s). 15 - i)") auto

definition waitForMessageSent :: "env \<Rightarrow> string \<Rightarrow> sched \<Rightarrow> bool \<times> sched" where
  "waitForMessageSent e messageText s = waitLoop e messageText 0 s"

text \<open>The history at which poll \<open>k\<close> (counted from 0) of a wait started in state \<open>s\<close> looks at
  the page: \<open>k + 1\<close> sleeps of 200 ms after the start.\<close>

definition pollHistory :: "sched \<Rightarrow> nat \<Rightarrow> history" where
  "pollHistory s k = trace s @ replicate (Suc k) (Sleep 200)"

definition pollConfirms :: "env \<Rightarrow> string \<Rightarrow> sched \<Rightarrow> nat \<Rightarrow> bool" where
  "pollConfirms e messageText s k =
     (inputCleared e (pollHistory s k) \<and> messageFound e messageText (pollHistory s k))"

text \<open>The two conditions in plain terms. The white space of \<open>trim\<close> as a set; an element
  that is an outgoing message (the class that WhatsApp Web gives to the sender's own
  messages, in the two spellings of the selector); the composer holding nothing, a text
  showing up in some element.\<close>

definition whiteSpace :: "codeunit set" where
  "whiteSpace =
     {0x09, 0x0A, 0x0B, 0x0C, 0x0D, 0x20, 0xA0, 0x1680, 0x2028, 0x2029, 0x202F, 0x205F,
      0x3000, 0xFEFF} \<union> {0x2000..0x200A}"

definition outgoing :: "node \<Rightarrow> bool" where
  "outgoing n = (''message-out'' \<in> set (classList n) \<or> ''msg-out'' \<in> set (classList n))"

definition carries :: "string \<Rightarrow> node \<Rightarrow> bool" where
  "carries t n = (textContent n \<noteq> [] \<and> sublist (codeUnits (take 30 t)) (textContent n))"

definition composerText :: "env \<Rightarrow> history \<Rightarrow> codeunit list option" where
  "composerText e h = map_option (content e h) (findMessageInputBox e h)"

subsection \<open>The send primitive: \<open>injectAndSendMessage\<close>\<close>

definition sendCooldown :: int where
  "sendCooldown = 2000"

definition pressEnter :: "elem \<Rightarrow> sched \<Rightarrow> sched" where
  "pressEnter el s = steps [dom (KeyDown el Enter), dom (KeyUp el Enter)] s"

text \<open>The tail shared by the first two methods: wait for the confirmation; a confirmed send
  stamps \<open>lastSendTime\<close> and returns true, an unconfirmed one throws
  \<open>Send confirmation failed\<close>, which the method's own \<open>catch\<close> turns into falling through to
  the next method (the result \<open>False\<close> here).\<close>

definition confirmSend :: "env \<Rightarrow> string \<Rightarrow> sched \<Rightarrow> bool \<times> sched" where
  "confirmSend e messageText s =
     (let (sent, s1) = waitForMessageSent e messageText s in
      if sent then (True, s1\<lparr>lastSendTime := dateNow e (trace s1)\<rparr>) else (False, s1))"

text \<open>Method 1: copy to the clipboard, select all, paste, check the composer, submit. A
  rejected \<open>writeText\<close> is caught and ends the method.\<close>

definition clipboardMethod :: "env \<Rightarrow> string \<Rightarrow> elem \<Rightarrow> sched \<Rightarrow> bool \<times> sched" where
  "clipboardMethod e messageText inputBox s =
     (if \<not> clipboardWriteOk e (trace s) messageText then (False, s)
      else
        (let s1 = steps [emit (ClipboardWrite messageText), dom (Focus inputBox),
                         dom (Click inputBox), sleep 200, dom (KeyDown inputBox CtrlA),
                         sleep 50, dom (KeyDown inputBox CtrlV), dom (KeyUp inputBox CtrlV),
                         sleep 500] s in
         if includesStr (content e (trace s1) inputBox) (codeUnits (substring0 20 messageText))
         then confirmSend e messageText (pressEnter inputBox s1)
         else (False, s1)))"

text \<open>Method 2: \<open>execCommand('insertText')\<close>, with direct assignment when it reports
  failure.\<close>

definition insertionMethod :: "env \<Rightarrow> string \<Rightarrow> elem \<Rightarrow> sched \<Rightarrow> bool \<times> sched" where
  "insertionMethod e messageText inputBox s =
     (let s1 = steps [dom (Focus inputBox), sleep 100, dom ExecSelectAll, dom ExecDelete,
                      dom (ExecInsertText messageText)] s;
          s2 = (if execInsertTextOk e (trace s1) then s1
                else steps [dom (SetContent inputBox messageText),
                            dom (DispatchEvent inputBox ''input'')] s1);
          s3 = sleep 300 s2 in
      if includesStr (content e (trace s3) inputBox) (codeUnits (substring0 20 messageText))
      then confirmSend e messageText (pressEnter inputBox s3)
      else (False, s3))"

text \<open>Method 3: one key-down, \<open>insertText\<close>, key-up and 5 ms sleep per character, then the
  submit; it stamps \<open>lastSendTime\<close> and returns true.\<close>

definition typeChar :: "elem \<Rightarrow> char \<Rightarrow> sched \<Rightarrow> sched" where
  "typeChar inputBox c s =
     steps [dom (KeyDown inputBox (CharKey c)), dom (ExecInsertText [c]),
            dom (KeyUp inputBox (CharKey c)), sleep 5] s"

definition typingMethod :: "env \<Rightarrow> string \<Rightarrow> elem \<Rightarrow> sched \<Rightarrow> bool \<times> sched" where
  "typingMethod e messageText inputBox s =
     (let s1 = steps [dom (Focus inputBox), sleep 100, dom ExecSelectAll, dom ExecDelete] s;
          s2 = fold (typeChar inputBox) messageText s1;
          s3 = pressEnter inputBox (sleep 200 s2) in
      (True, s3\<lparr>lastSendTime := dateNow e (trace s3)\<rparr>))"

definition injectAndSendMessage :: "env \<Rightarrow> string \<Rightarrow> sched \<Rightarrow> bool \<times> sched" where
  "injectAndSendMessage e messageText s =
     (let now = dateNow e (trace s);
          s1 = (if now - lastSendTime s < sendCooldown
                then sleep (sendCooldown - (now - lastSendTime s)) s else s) in
      case findMessageInputBox e (trace s1) of
        None \<Rightarrow> (False, s1)
      | Some inputBox \<Rightarrow>
          (let (ok1, s2) = clipboardMethod e messageText inputBox s1 in
           if ok1 then (True, s2)
           else
             (let (ok2, s3) = insertionMethod e messageText inputBox s2 in
              if ok2 then (True, s3)
              else typingMethod e messageText inputBox s3)))"


subsection \<open>The conversation switcher: \<open>openChat\<close>\<close>

definition focusElement :: "elem \<Rightarrow> sched \<Rightarrow> sched" where
  "focusElement el s = steps [dom (Focus el), dom (FocusEvents el)] s"

definition clearInputBox :: "env \<Rightarrow> elem \<Rightarrow> sched \<Rightarrow> sched" where
  "clearInputBox e inputBox s =
     (let s1 = steps [dom (Focus inputBox), sleep 100, dom ExecSelectAll, dom ExecDelete,
                      dom (SetContent inputBox []),
                      dom (KeyDown inputBox CtrlA), dom (KeyUp inputBox CtrlA),
                      dom (KeyDown inputBox Delete), dom (KeyUp inputBox Delete),
                      dom (DispatchEvent inputBox ''input''),
                      dom (DispatchEvent inputBox ''change''),
                      dom (DispatchEvent inputBox ''keyup''),
                      dom (DispatchEvent inputBox ''textInput''),
                      dom (DispatchEvent inputBox ''compositionend''),
                      sleep 200] s in
      if trim (content e (trace s1) inputBox) \<noteq> []
      then steps [dom (SetContent inputBox []), dom (DispatchEvent inputBox ''input''),
                  sleep 100] s1
      else s1)"

definition setContentDirectly :: "env \<Rightarrow> elem \<Rightarrow> string \<Rightarrow> sched \<Rightarrow> bool \<times> sched" where
  "setContentDirectly e inputBox messageText s =
     (let s1 = steps [dom (SetContent inputBox messageText),
                      dom (DispatchEvent inputBox ''input''), sleep 100] s in
      (trim (content e (trace s1) inputBox) = trim (codeUnits messageText), s1))"

definition insertMessageText :: "env \<Rightarrow> elem \<Rightarrow> string \<Rightarrow> sched \<Rightarrow> bool \<times> sched" where
  "insertMessageText e inputBox messageText s =
     (let s1 = steps [dom (Focus inputBox), sleep 50] s in
      if trim (content e (trace s1) inputBox) = trim (codeUnits messageText) then (True, s1)
      else
        (let s2 = dom (ExecInsertText messageText) s1 in
         if execInsertTextOk e (trace s2) then
           (let s3 = sleep 100 s2 in
            if trim (content e (trace s3) inputBox) = trim (codeUnits messageText)
            then (True, s3)
            else setContentDirectly e inputBox messageText s3)
         else setContentDirectly e inputBox messageText s2))"

text \<open>One pass of the loop body up to the final check: type the name into the search field,
  Tab twice, Enter on the focused element, wait a second.\<close>

definition searchAndSelect :: "env \<Rightarrow> elem \<Rightarrow> string \<Rightarrow> sched \<Rightarrow> sched" where
  "searchAndSelect e searchInput chatName s =
     (let s1 = sleep 120 (clearInputBox e searchInput (sleep 100 (focusElement searchInput s)));
          s2 = snd (insertMessageText e searchInput chatName s1) in
      steps [sleep 800,
             dom (KeyDown searchInput Tab), dom (KeyUp searchInput Tab), sleep 100,
             dom (KeyDown searchInput Tab), dom (KeyUp searchInput Tab), sleep 200,
             dom (KeyDownActive Enter), dom (KeyUpActive Enter), sleep 1000] s2)"

function openChatLoop :: "env \<Rightarrow> string \<Rightarrow> nat \<Rightarrow> nat \<Rightarrow> sched \<Rightarrow> bool \<times> sched" where
  "openChatLoop e chatName retries attempt s =
     (if attempt < retries then
        (let s1 = updateStatus (OpeningChat chatName) SWorking s in
         case findSearchInput e (trace s1) of
           None \<Rightarrow> openChatLoop e chatName retries (Suc attempt) (sleep 300 s1)
         | Some searchInput \<Rightarrow>
             (let s2 = searchAndSelect e searchInput chatName s1 in
              if (case findMessageInputBox e (trace s2) of
                    Some messageInput \<Rightarrow> \<not> isSearchBox e (trace s2) messageInput
                  | None \<Rightarrow> False)
              then (True, updateStatus (ChatOpened chatName) SSuccess s2)
              else openChatLoop e chatName retries (Suc attempt) (sleep 500 s2)))
      else (False, updateStatus (ChatOpenFailed chatName) SError s))"
  by pat_completeness auto
termination
  by (relation "measure (\<lambda>(e, chatName, retries, attempt, s). retries - attempt)") auto

definition openChat :: "env \<Rightarrow> string \<Rightarrow> nat \<Rightarrow> sched \<Rightarrow> bool \<times> sched" where
  "openChat e chatName retries s = openChatLoop e chatName retries 0 s"

subsection \<open>Clipboard and post-send action\<close>

text \<open>\<open>getClipboardText\<close>: a rejected read is caught and gives the empty string.\<close>

definition getClipboardText :: "env \<Rightarrow> sched \<Rightarrow> string \<times> sched" where
  "getClipboardText e s =
     (let s1 = emit ClipboardRead s in
      (case clipboardReadText e (trace s1) of Some t \<Rightarrow> t | None \<Rightarrow> [], s1))"

text \<open>\<open>handlePostSendAction\<close> reads the setting (default \<open>refresh\<close>) and arms a 3 s timer for
  the reload or the close; \<open>none\<close> does nothing, an unknown value reloads.\<close>

definition handlePostSendAction :: "env \<Rightarrow> sched \<Rightarrow> sched" where
  "handlePostSendAction e s =
     (let action = (case postSendSetting e (trace s) of
                      None \<Rightarrow> ''refresh''
                    | Some a \<Rightarrow> if a = [] then ''refresh'' else a) in
      if action = ''refresh'' then emit (PostSendTimer Refresh) s
      else if action = ''close'' then emit (PostSendTimer CloseTab) s
      else if action = ''none'' then s
      else emit (PostSendTimer Refresh) s)"

subsection \<open>The store: \<open>WASStorage\<close>\<close>

text \<open>The mirror in \<open>localStorage\<close>: \<open>getFallbackSchedules\<close> and \<open>saveFallbackSchedules\<close>
  catch what \<open>localStorage\<close> throws; a failed read gives the empty list, a failed write
  changes nothing.\<close>

definition getFallbackSchedules :: "env \<Rightarrow> sched \<Rightarrow> schedule list" where
  "getFallbackSchedules e s = (if localStorageOk e (trace s) then mirror s else [])"

definition saveFallbackSchedules :: "env \<Rightarrow> schedule list \<Rightarrow> sched \<Rightarrow> sched" where
  "saveFallbackSchedules e schedules s =
     (if localStorageOk e (trace s) then s\<lparr>mirror := schedules\<rparr> else s)"

definition contextInvalidated :: string where
  "contextInvalidated = ''Extension context invalidated''"

text \<open>\<open>error.message && error.message.includes('Extension context invalidated')\<close>.\<close>

definition saysInvalidated :: "string \<Rightarrow> bool" where
  "saysInvalidated m = (m \<noteq> [] \<and> includesStr m contextInvalidated)"

text \<open>\<open>getSchedules\<close>: nothing without \<open>chrome.storage.local\<close>; the mirror when the extension
  context is invalidated; otherwise the stored list. A rejected read gives the empty list,
  and arms a reload of the page after a second when the error says that the context is
  invalidated.\<close>

definition getSchedules :: "env \<Rightarrow> sched \<Rightarrow> schedule list \<times> sched" where
  "getSchedules e s =
     (if \<not> storageAvailable e (trace s) then ([], s)
      else if \<not> contextValid e (trace s) then (getFallbackSchedules e s, s)
      else
        (case storageGetError e (trace s) of
           None \<Rightarrow> (store s, s)
         | Some m \<Rightarrow> if saysInvalidated m then ([], emit (ReloadTimer 1000) s) else ([], s)))"

text \<open>\<open>saveSchedules\<close>: without \<open>chrome.storage.local\<close> or with an invalidated context only
  the mirror is written and the result is false; otherwise the list is stored, mirrored, and
  the result is true. A rejected write gives false, and is mirrored when the error says that
  the context is invalidated.\<close>

definition saveSchedules :: "env \<Rightarrow> schedule list \<Rightarrow> sched \<Rightarrow> bool \<times> sched" where
  "saveSchedules e schedules s =
     (if \<not> storageAvailable e (trace s) then (False, saveFallbackSchedules e schedules s)
      else if \<not> contextValid e (trace s) then (False, saveFallbackSchedules e schedules s)
      else
        (case storageSetError e (trace s) of
           None \<Rightarrow> (True, saveFallbackSchedules e schedules (s\<lparr>store := schedules\<rparr>))
         | Some m \<Rightarrow> if saysInvalidated m then (False, saveFallbackSchedules e schedules s)
                     else (False, s)))"

text \<open>\<open>updateSchedule(id, updates)\<close> merges the updates into the first record with that id
  of the list that \<open>getSchedules\<close> returned and saves the list; without such a record it
  returns false.\<close>

definition updateSchedule :: "env \<Rightarrow> string \<Rightarrow> (schedule \<Rightarrow> schedule) \<Rightarrow> sched \<Rightarrow> bool \<times> sched" where
  "updateSchedule e i updates s =
     (let (schedules, s1) = getSchedules e s in
      case findIndex (\<lambda>x. sid x = i) schedules of
        Some k \<Rightarrow> saveSchedules e (schedules[k := updates (schedules ! k)]) s1
      | None \<Rightarrow> (False, s1))"

definition markScheduleSent :: "env \<Rightarrow> string \<Rightarrow> sched \<Rightarrow> bool \<times> sched" where
  "markScheduleSent e i s =
     (let s1 = emit (MarkSent i) s;
          today = todayString e (trace s1) in
      updateSchedule e i (\<lambda>x. x\<lparr>sent := True, lastSentDate := Some today\<rparr>) s1)"

subsection \<open>The delivery orchestrator: \<open>sendScheduledMessage\<close> and \<open>sendToTargets\<close>\<close>

definition openChatOp :: "env \<Rightarrow> string \<Rightarrow> operation" where
  "openChatOp e name s = (let (opened, s1) = openChat e name 1 s in (Inr (JBool opened), s1))"

definition injectOp :: "env \<Rightarrow> string \<Rightarrow> operation" where
  "injectOp e messageText s =
     (let (ok, s1) = injectAndSendMessage e messageText s in (Inr (JBool ok), s1))"

text \<open>\<open>schedule.contactList.filter(Boolean)\<close>, or the single \<open>contactName\<close>.\<close>

definition contactsOf :: "schedule \<Rightarrow> string list" where
  "contactsOf schedule =
     (case contactList schedule of
        Some l \<Rightarrow> filter (\<lambda>c. c \<noteq> []) l
      | None \<Rightarrow> (case contactName schedule of
                   Some n \<Rightarrow> if n \<noteq> [] then [n] else []
                 | None \<Rightarrow> []))"

text \<open>The loop over the contacts of a schedule. \<open>opened\<close> and \<open>sent\<close> are what \<open>smartRetry\<close>
  returned; \<open>success\<close> starts as \<open>false\<close> and \<open>success || sent\<close> keeps it a boolean. What
  \<open>smartRetry\<close> throws leaves the loop (\<open>Inl\<close>).\<close>

function contactsLoop ::
  "env \<Rightarrow> string \<Rightarrow> string list \<Rightarrow> nat \<Rightarrow> bool \<Rightarrow> sched \<Rightarrow> (thrown + bool) \<times> sched" where
  "contactsLoop e messageText contacts i success s =
     (if i < length contacts then
        (let name = contacts ! i;
             (opening, s1) = smartRetry (openChatOp e name) (if autoRetry s then 3 else 1) s in
         case opening of
           Inl error \<Rightarrow> (Inl error, s1)
         | Inr opened \<Rightarrow>
             if \<not> truthy opened then contactsLoop e messageText contacts (Suc i) success s1
             else
               (let s2 = sleep 300 s1;
                    (sending, s3) = smartRetry (injectOp e messageText) 2 s2 in
                case sending of
                  Inl error \<Rightarrow> (Inl error, s3)
                | Inr delivered \<Rightarrow>
                    contactsLoop e messageText contacts (Suc i) (success \<or> truthy delivered)
                      (if Suc i < length contacts then sleep (sendDelay s3) s3 else s3)))
      else (Inr success, s))"
  by pat_completeness auto
termination
  by (relation "measure (\<lambda>(e, messageText, contacts, i, success, s). length contacts - i)") auto

definition messagePreview :: "string \<Rightarrow> string" where
  "messagePreview messageText =
     substring0 50 messageText @ (if length messageText > 50 then ''...'' else [])"

text \<open>The end of the \<open>try\<close> block. The result of \<open>markScheduleSent\<close> is not looked at.\<close>

definition afterDelivery :: "env \<Rightarrow> schedule \<Rightarrow> string \<Rightarrow> bool \<Rightarrow> sched \<Rightarrow> sched" where
  "afterDelivery e schedule messageText success s =
     (if success then
        handlePostSendAction e
          (emit (MessageSent (sid schedule) (time schedule) (messagePreview messageText))
             (updateStatus MessageSentOk SSuccess (snd (markScheduleSent e (sid schedule) s))))
      else updateStatus MessageSendFailed SError s)"

text \<open>The text to send: the schedule's own, or the clipboard's when the schedule has none
  (no \<open>message\<close>, or the empty string) and the clipboard option is set. The empty string
  stands for every falsy outcome.\<close>

definition resolveMessageText :: "env \<Rightarrow> schedule \<Rightarrow> sched \<Rightarrow> string \<times> sched" where
  "resolveMessageText e schedule s =
     (let messageText = (case message schedule of Some m \<Rightarrow> m | None \<Rightarrow> []) in
      if messageText = [] \<and> useClipboard schedule then getClipboardText e s
      else (messageText, s))"

text \<open>The method has no \<open>return\<close> with a value: every path yields \<open>undefined\<close>. Its \<open>catch\<close>
  logs what the \<open>try\<close> block threw and nothing else; the \<open>finally\<close> clears the flag on every
  path that set it.\<close>

definition sendScheduledMessage :: "env \<Rightarrow> schedule \<Rightarrow> sched \<Rightarrow> jsval \<times> sched" where
  "sendScheduledMessage e schedule s =
     (if isSending s then (JUndefined, s)
      else
        (let (messageText, s1) = resolveMessageText e schedule (s\<lparr>isSending := True\<rparr>) in
         if messageText = [] then (JUndefined, s1\<lparr>isSending := False\<rparr>)
         else
           (let contacts = contactsOf schedule;
                (r, s2) =
                  (if length contacts > 0
                   then contactsLoop e messageText contacts 0 False s1
                   else (let (sending, s') = smartRetry (injectOp e messageText) 2 s1 in
                         (case sending of
                            Inl error \<Rightarrow> Inl error
                          | Inr delivered \<Rightarrow> Inr (truthy delivered), s')));
                s3 = (case r of
                        Inl error \<Rightarrow> s2
                      | Inr success \<Rightarrow> afterDelivery e schedule messageText success s2) in
            (JUndefined, s3\<lparr>isSending := False\<rparr>))))"

function targetsLoop :: "env \<Rightarrow> string \<Rightarrow> string list \<Rightarrow> nat \<Rightarrow> bool \<Rightarrow> sched \<Rightarrow> bool \<times> sched" where
  "targetsLoop e messageText targets i success s =
     (if i < length targets then
        (let name = targets ! i;
             (opened, s1) = openChat e name (if autoRetry s then 3 else 1) s in
         if \<not> opened then targetsLoop e messageText targets (Suc i) success s1
         else
           (let s2 = sleep 250 s1;
                (sent, s3) = injectAndSendMessage e messageText s2;
                s4 = (if Suc i < length targets then sleep (sendDelay s3) s3 else s3) in
            targetsLoop e messageText targets (Suc i) (success \<or> sent) s4))
      else (success, s))"
  by pat_completeness auto
termination
  by (relation "measure (\<lambda>(e, messageText, targets, i, success, s). length targets - i)") auto

definition sendToTargets :: "env \<Rightarrow> string \<Rightarrow> string list \<Rightarrow> sched \<Rightarrow> jsval \<times> sched" where
  "sendToTargets e messageText contacts s =
     (if isSending s then (JBool False, s)
      else
        (let s0 = s\<lparr>isSending := True\<rparr>;
             targets = filter (\<lambda>c. c \<noteq> []) contacts;
             (success, s1) =
               (if length targets > 0 then targetsLoop e messageText targets 0 False s0
                else injectAndSendMessage e messageText s0);
             s2 = (if success then handlePostSendAction e s1 else s1) in
         (JBool success, s2\<lparr>isSending := False\<rparr>)))"

subsection \<open>The panel's test send: \<open>testSend\<close>\<close>

text \<open>\<open>showNotification(title, message, type)\<close> of the panel.\<close>

definition showNotification :: "string \<Rightarrow> string \<Rightarrow> severity \<Rightarrow> sched \<Rightarrow> sched" where
  "showNotification title msg type s = emit (ShowNotification title msg type) s"



subsection \<open>The scheduler loop: \<open>shouldSendMessage\<close> and \<open>checkSchedules\<close>\<close>

definition isWhatsAppConnected :: "env \<Rightarrow> history \<Rightarrow> bool" where
  "isWhatsAppConnected e h = (\<not> disconnectedBanner e h)"

definition shouldSendMessage :: "env \<Rightarrow> history \<Rightarrow> schedule \<Rightarrow> string \<Rightarrow> bool" where
  "shouldSendMessage e h schedule currentTime =
     (if sent schedule then False
      else if time schedule \<noteq> currentTime then False
      else if \<not> isWhatsAppConnected e h then False
      else True)"

text \<open>\<open>updateNextMessageStatus\<close> reports either that nothing is scheduled or the countdown
  to the next unsent schedule; the countdown text is left out of the event.\<close>

definition updateNextMessageStatus :: "schedule list \<Rightarrow> sched \<Rightarrow> sched" where
  "updateNextMessageStatus schedules s =
     (if filter (\<lambda>x. \<not> sent x) schedules = [] then updateStatus NoScheduledMessages SInfo s
      else updateStatus NextMessage SInfo s)"

text \<open>The \<open>try\<close> block of the body of \<open>for (const schedule of pendingSchedules)\<close>:
  the preview \<open>schedule.message.substring(0, 30)\<close> throws a \<open>TypeError\<close> for a record without
  a message; \<open>sendScheduledMessage\<close> never throws.\<close>

definition tryDelivery :: "env \<Rightarrow> nat \<Rightarrow> schedule \<Rightarrow> sched \<Rightarrow> (thrown + unit) \<times> sched" where
  "tryDelivery e n schedule s =
     (case message schedule of
        None \<Rightarrow> (Inl (ErrorObject (cannotRead ''undefined'' ''substring'')), s)
      | Some m \<Rightarrow>
          (let s1 = updateStatus (SendingPreview (substring0 30 m)) SWorking s;
               (v, s2) = sendScheduledMessage e schedule s1 in
           (Inr (), if n > 1 then sleep 3000 s2 else s2)))"

text \<open>The body with its \<open>catch\<close>, which reports \<open>error.message\<close> and lets the loop go on.
  When the read of \<open>error.message\<close> itself throws, that \<open>TypeError\<close> leaves the loop; its
  message is the first component of the result.\<close>

definition processSchedule :: "env \<Rightarrow> nat \<Rightarrow> schedule \<Rightarrow> sched \<Rightarrow> string option \<times> sched" where
  "processSchedule e n schedule s =
     (let (r, s1) = tryDelivery e n schedule s in
      case r of
        Inr finished \<Rightarrow> (None, s1)
      | Inl error \<Rightarrow>
          (case messageOf error of
             Inl typeError \<Rightarrow> (Some typeError, s1)
           | Inr m \<Rightarrow> (None, updateStatus (FailedToSend (interpolated m)) SError s1)))"

fun processPending :: "env \<Rightarrow> nat \<Rightarrow> schedule list \<Rightarrow> sched \<Rightarrow> string option \<times> sched" where
  "processPending e n [] s = (None, s)"
| "processPending e n (schedule # rest) s =
     (case processSchedule e n schedule s of
        (None, s1) \<Rightarrow> processPending e n rest s1
      | (Some typeError, s1) \<Rightarrow> (Some typeError, s1))"

definition stop :: "sched \<Rightarrow> sched" where
  "stop s = (if \<not> isRunning s then s else emit StopScheduler (s\<lparr>isRunning := False\<rparr>))"

text \<open>One tick. The store's methods catch their own errors, so the outer \<open>catch\<close> is reached
  only by what leaves the loop; the \<open>finally\<close> releases the flag on every path that set
  it.\<close>

definition checkSchedules :: "env \<Rightarrow> sched \<Rightarrow> sched" where
  "checkSchedules e s =
     (if isCheckingSchedules s then s
      else
        (let s0 = s\<lparr>isCheckingSchedules := True\<rparr>;
             s1 =
               (if \<not> storageReady e (trace s0) then s0
                else if \<not> contextValid e (trace s0)
                then emit ContextInvalidation (stop s0)
                else
                  (let (schedules, sg) = getSchedules e s0;
                       currentTime = currentTimeString e (trace sg);
                       sa = updateNextMessageStatus schedules sg;
                       pendingSchedules =
                         filter (\<lambda>x. shouldSendMessage e (trace sa) x currentTime) schedules in
                   if length pendingSchedules = 0 then sa
                   else
                     (case processPending e (length pendingSchedules) pendingSchedules
                             (updateStatus (SendingCount (length pendingSchedules)) SWorking sa) of
                        (None, sb) \<Rightarrow> sb
                      | (Some typeError, sb) \<Rightarrow>
                          if saysInvalidated typeError
                          then emit ContextInvalidation (stop sb)
                          else updateStatus (ScheduleCheckError typeError) SError sb)))
         in s1\<lparr>isCheckingSchedules := False\<rparr>))"

text \<open>The state in which a tick that found the flag clear computes the due subset, and that
  subset: the schedules that the store hands out for which \<open>shouldSendMessage\<close> holds, in
  stored order.\<close>

definition tickStart :: "env \<Rightarrow> sched \<Rightarrow> sched" where
  "tickStart e s =
     (let (schedules, sg) = getSchedules e (s\<lparr>isCheckingSchedules := True\<rparr>) in
      updateNextMessageStatus schedules sg)"

definition dueNow :: "env \<Rightarrow> sched \<Rightarrow> schedule list" where
  "dueNow e s =
     (let (schedules, sg) = getSchedules e (s\<lparr>isCheckingSchedules := True\<rparr>) in
      filter (\<lambda>x. shouldSendMessage e (trace (tickStart e s)) x (currentTimeString e (trace sg)))
        schedules)"

text \<open>The part of the state that only the orchestrator, the scheduler loop and the store
  write: everything but the history and \<open>lastSendTime\<close>.\<close>

definition settled ::
  "sched \<Rightarrow> bool \<times> bool \<times> bool \<times> int \<times> bool \<times> schedule list \<times> schedule list" where
  "settled s =
     (isRunning s, isSending s, isCheckingSchedules s, sendDelay s, autoRetry s, store s,
      mirror s)"

subsection \<open>The target iteration, by list\<close>

text \<open>The iteration stated over the list of targets instead of an index: the targets are
  taken in listed order; for each, the conversation is switched and, when that worked, the
  message is sent and the result is or-ed into the success flag; the inter-send delay follows
  a send unless the target was the last one. A target whose conversation could not be opened
  is passed over at once.\<close>

fun deliverEach :: "(string \<Rightarrow> sched \<Rightarrow> bool \<times> sched) \<Rightarrow> (sched \<Rightarrow> bool \<times> sched) \<Rightarrow>
    string list \<Rightarrow> bool \<Rightarrow> sched \<Rightarrow> bool \<times> sched" where
  "deliverEach switch send [] success s = (success, s)"
| "deliverEach switch send (name # rest) success s =
     (let (opened, s1) = switch name s in
      if \<not> opened then deliverEach switch send rest success s1
      else
        (let (sent, s2) = send s1;
             s3 = (if rest = [] then s2 else sleep (sendDelay s2) s2) in
         deliverEach switch send rest (success \<or> sent) s3))"

text \<open>The switch and the send of a scheduled delivery (both under \<open>smartRetry\<close>) and of an
  immediate one.\<close>

definition switchScheduled :: "env \<Rightarrow> string \<Rightarrow> sched \<Rightarrow> bool \<times> sched" where
  "switchScheduled e name s =
     (let (opened, s1) = smartRetry (openChatOp e name) (if autoRetry s then 3 else 1) s in
      (succeeded opened, s1))"

definition sendScheduled :: "env \<Rightarrow> string \<Rightarrow> sched \<Rightarrow> bool \<times> sched" where
  "sendScheduled e messageText s =
     (let (sent, s1) = smartRetry (injectOp e messageText) 2 (sleep 300 s) in
      (succeeded sent, s1))"

definition switchNow :: "env \<Rightarrow> string \<Rightarrow> sched \<Rightarrow> bool \<times> sched" where
  "switchNow e name s = openChat e name (if autoRetry s then 3 else 1) s"

definition sendNow :: "env \<Rightarrow> string \<Rightarrow> sched \<Rightarrow> bool \<times> sched" where
  "sendNow e messageText s = injectAndSendMessage e messageText (sleep 250 s)"

subsection \<open>Concrete pages and operations for evaluation\<close>

definition idle :: sched where
  "idle = \<lparr>isRunning = True, isSending = False, isCheckingSchedules = False,
           lastSendTime = 0, sendDelay = 3000, autoRetry = True, store = [], mirror = [],
           trace = []\<rparr>"

text \<open>An operation that throws an \<open>Error\<close> on its first call, resolves \<open>false\<close> on the second
  and a truthy string from the third on (it counts the sleeps since the start), and one that
  rejects with \<open>null\<close> whenever it is called.\<close>

definition flaky :: operation where
  "flaky s =
     (case length (trace s) of
        0 \<Rightarrow> Inl (ErrorObject ''boom'')
      | Suc 0 \<Rightarrow> Inr (JBool False)
      | Suc (Suc k) \<Rightarrow> Inr (JStr ''done''), s)"

definition rejecting :: operation where
  "rejecting s = (Inl (Thrown JNull), s)"

text \<open>A connected page with one composer (element 7) that is always empty and with no
  message element at all: whatever is submitted, nothing ever shows up.\<close>

definition silentPage :: env where
  "silentPage =
     \<lparr>dateNow = (\<lambda>h. 100000), currentTimeString = (\<lambda>h. ''09:00''),
      todayString = (\<lambda>h. ''Mon Nov 02 2026''),
      findMessageInputBox = (\<lambda>h. Some 7), findSearchInput = (\<lambda>h. None),
      isSearchBox = (\<lambda>h el. False), content = (\<lambda>h el. []),
      pageNodes = (\<lambda>h. []), disconnectedBanner = (\<lambda>h. False),
      clipboardWriteOk = (\<lambda>h t. False), clipboardReadText = (\<lambda>h. None),
      execInsertTextOk = (\<lambda>h. True), storageReady = (\<lambda>h. True),
      storageAvailable = (\<lambda>h. True), contextValid = (\<lambda>h. True),
      storageGetError = (\<lambda>h. None), storageSetError = (\<lambda>h. None),
      localStorageOk = (\<lambda>h. True), postSendSetting = (\<lambda>h. Some ''none'')\<rparr>"

text \<open>The message \<open>Ping\<close> as an element of the conversation: sent by the user, and received
  from the other side.\<close>

definition sentPing :: node where
  "sentPing = \<lparr>dataTestid = Some ''msg-container'', classList = [''message-out''],
               textContent = codeUnits ''Ping''\<rparr>"

definition receivedPing :: node where
  "receivedPing = \<lparr>dataTestid = Some ''msg-container'', classList = [''message-in''],
                   textContent = codeUnits ''Ping''\<rparr>"

text \<open>Three pages on which nothing is ever submitted: one that shows a received \<open>Ping\<close> and
  has an empty composer; one that shows a sent \<open>Ping\<close> and has no composer; one that shows a
  sent \<open>Ping\<close> while its composer holds a no-break space and an em space.\<close>

definition incomingPage :: env where
  "incomingPage = silentPage\<lparr>pageNodes := (\<lambda>h. [receivedPing])\<rparr>"

definition barePage :: env where
  "barePage = silentPage\<lparr>findMessageInputBox := (\<lambda>h. None), pageNodes := (\<lambda>h. [sentPing])\<rparr>"

definition blankPage :: env where
  "blankPage = silentPage\<lparr>content := (\<lambda>h el. [0xA0, 0x2003]), pageNodes := (\<lambda>h. [sentPing])\<rparr>"

text \<open>A schedule for 09:00 with the message \<open>Ping\<close> for Alice and Bob.\<close>

definition morning :: schedule where
  "morning = \<lparr>sid = ''1730000000000'', time = ''09:00'', message = Some ''Ping'',
              useClipboard = False, contactList = Some [''Alice'', ''Bob''],
              contactName = None, sent = False, lastSentDate = None\<rparr>"

text \<open>A page that works for Bob only: the search field (element 3) is found when a switch
  to Bob has just been announced, the composer (element 7) shows \<open>Ping\<close> after a paste and until
  the submit, and the submitted message then shows up among the messages.\<close>

definition bobPage :: env where
  "bobPage =
     \<lparr>dateNow = (\<lambda>h. 100000), currentTimeString = (\<lambda>h. ''09:00''),
      todayString = (\<lambda>h. ''Mon Nov 02 2026''),
      findMessageInputBox = (\<lambda>h. Some 7),
      findSearchInput =
        (\<lambda>h. if h \<noteq> [] \<and> last h = StatusUpdate (OpeningChat ''Bob'') SWorking
             then Some 3 else None),
      isSearchBox = (\<lambda>h el. el = 3),
      content =
        (\<lambda>h el. if el = 7 \<and> Dom (KeyDown 7 CtrlV) \<in> set h \<and> Dom (KeyDown 7 Enter) \<notin> set h
                then codeUnits ''Ping'' else []),
      pageNodes = (\<lambda>h. if Dom (KeyDown 7 Enter) \<in> set h then [sentPing] else []),
      disconnectedBanner = (\<lambda>h. False),
      clipboardWriteOk = (\<lambda>h t. True), clipboardReadText = (\<lambda>h. None),
      execInsertTextOk = (\<lambda>h. True), storageReady = (\<lambda>h. True),
      storageAvailable = (\<lambda>h. True), contextValid = (\<lambda>h. True),
      storageGetError = (\<lambda>h. None), storageSetError = (\<lambda>h. None),
      localStorageOk = (\<lambda>h. True), postSendSetting = (\<lambda>h. None)\<rparr>"

text \<open>The same page when the extension is reloaded while the message is being submitted:
  from the submit on, the extension context is invalidated.\<close>

definition stalePage :: env where
  "stalePage = bobPage\<lparr>contextValid := (\<lambda>h. Dom (KeyDown 7 Enter) \<notin> set h)\<rparr>"

text \<open>The scheduler at rest with \<open>morning\<close> stored and mirrored, and in the middle of a
  send.\<close>

definition ready :: sched where
  "ready = idle\<lparr>store := [morning], mirror := [morning]\<rparr>"


text \<open>The same schedule with the targets in the other order.\<close>

definition evening :: schedule where
  "evening = morning\<lparr>contactList := Some [''Bob'', ''Alice'']\<rparr>"

text \<open>What the switch to Alice, the switch to Bob and the send to Bob do on \<open>bobPage\<close>.\<close>

definition aliceTrace :: history where
  "aliceTrace =
     [StatusUpdate (OpeningChat ''Alice'') SWorking, Sleep 300,
      StatusUpdate (ChatOpenFailed ''Alice'') SError, Sleep 1000,
      StatusUpdate (OpeningChat ''Alice'') SWorking, Sleep 300,
      StatusUpdate (ChatOpenFailed ''Alice'') SError, Sleep 2000,
      StatusUpdate (OpeningChat ''Alice'') SWorking, Sleep 300,
      StatusUpdate (ChatOpenFailed ''Alice'') SError]"

definition bobOpenTrace :: history where
  "bobOpenTrace =
     [StatusUpdate (OpeningChat ''Bob'') SWorking, Dom (Focus 3),
      Dom (FocusEvents 3), Sleep 100, Dom (Focus 3), Sleep 100,
      Dom ExecSelectAll, Dom ExecDelete, Dom (SetContent 3 []),
      Dom (KeyDown 3 CtrlA), Dom (KeyUp 3 CtrlA), Dom (KeyDown 3 Delete),
      Dom (KeyUp 3 Delete), Dom (DispatchEvent 3 ''input''),
      Dom (DispatchEvent 3 ''change''), Dom (DispatchEvent 3 ''keyup''),
      Dom (DispatchEvent 3 ''textInput''),
      Dom (DispatchEvent 3 ''compositionend''), Sleep 200, Sleep 120,
      Dom (Focus 3), Sleep 50, Dom (ExecInsertText ''Bob''), Sleep 100,
      Dom (SetContent 3 ''Bob''), Dom (DispatchEvent 3 ''input''),
      Sleep 100, Sleep 800, Dom (KeyDown 3 Tab), Dom (KeyUp 3 Tab),
      Sleep 100, Dom (KeyDown 3 Tab), Dom (KeyUp 3 Tab), Sleep 200,
      Dom (KeyDownActive Enter), Dom (KeyUpActive Enter), Sleep 1000,
      StatusUpdate (ChatOpened ''Bob'') SSuccess]"

text \<open>The clipboard method up to the sleep that follows the paste, and to its end.\<close>

definition pastingTrace :: history where
  "pastingTrace =
     [ClipboardWrite ''Ping'', Dom (Focus 7), Dom (Click 7), Sleep 200,
      Dom (KeyDown 7 CtrlA), Sleep 50, Dom (KeyDown 7 CtrlV),
      Dom (KeyUp 7 CtrlV), Sleep 500]"

definition submitTrace :: history where
  "submitTrace = [Dom (KeyDown 7 Enter), Dom (KeyUp 7 Enter), Sleep 200]"

definition bobSendTrace :: history where
  "bobSendTrace =
     [Sleep 300,
      ClipboardWrite ''Ping'', Dom (Focus 7), Dom (Click 7), Sleep 200,
      Dom (KeyDown 7 CtrlA), Sleep 50, Dom (KeyDown 7 CtrlV),
      Dom (KeyUp 7 CtrlV), Sleep 500, Dom (KeyDown 7 Enter),
      Dom (KeyUp 7 Enter), Sleep 200]"

definition closingTrace :: history where
  "closingTrace =
     [MarkSent ''1730000000000'', StatusUpdate MessageSentOk SSuccess,
      MessageSent ''1730000000000'' ''09:00'' ''Ping'', PostSendTimer Refresh]"

text \<open>A second schedule due at 09:00, for the open conversation, and a store holding both.\<close>

definition laterDue :: schedule where
  "laterDue = morning\<lparr>sid := ''1730000000001'', contactList := Some []\<rparr>"

definition twoDue :: sched where
  "twoDue = idle\<lparr>store := [morning, laterDue]\<rparr>"

text \<open>A record due at 09:00 that has no message, and a store in which it comes first.\<close>

definition unwritten :: schedule where
  "unwritten = morning\<lparr>sid := ''1730000000002'', message := None\<rparr>"

definition badFirst :: sched where
  "badFirst = idle\<lparr>store := [unwritten, laterDue]\<rparr>"

text \<open>The scheduler at rest with \<open>laterDue\<close> stored. The panel's test send of \<open>Ping\<close> to
  the open conversation, started in that state on \<open>bobPage\<close>, at the sleep that follows its
  paste: the scheduler's state while that call is suspended.\<close>

definition waiting :: sched where
  "waiting = idle\<lparr>store := [laterDue], mirror := [laterDue]\<rparr>"

definition pasted :: sched where
  "pasted =
     waiting\<lparr>trace := ShowNotification ''Testing'' ''Sending to current chat...'' SSuccess
                         # pastingTrace\<rparr>"

text \<open>A page that takes the text into its composer (element 7) and keeps it there: a submit
  has no visible effect and no message ever shows up.\<close>

definition deafPage :: env where
  "deafPage =
     silentPage\<lparr>content := (\<lambda>h el. codeUnits ''Ping''), clipboardWriteOk := (\<lambda>h t. True)\<rparr>"

definition pasteTrace :: history where
  "pasteTrace =
     [ClipboardWrite ''Ping'', Dom (Focus 7), Dom (Click 7), Sleep 200,
      Dom (KeyDown 7 CtrlA), Sleep 50, Dom (KeyDown 7 CtrlV), Dom (KeyUp 7 CtrlV),
      Sleep 500, Dom (KeyDown 7 Enter), Dom (KeyUp 7 Enter)]"

definition insertTrace :: history where
  "insertTrace =
     [Dom (Focus 7), Sleep 100, Dom ExecSelectAll, Dom ExecDelete,
      Dom (ExecInsertText ''Ping''), Sleep 300, Dom (KeyDown 7 Enter), Dom (KeyUp 7 Enter)]"

definition typingTrace :: history where
  "typingTrace =
     [Dom (Focus 7), Sleep 100, Dom ExecSelectAll, Dom ExecDelete,
      Dom (KeyDown 7 (CharKey CHR ''P'')), Dom (ExecInsertText ''P''),
      Dom (KeyUp 7 (CharKey CHR ''P'')), Sleep 5,
      Dom (KeyDown 7 (CharKey CHR ''i'')), Dom (ExecInsertText ''i''),
      Dom (KeyUp 7 (CharKey CHR ''i'')), Sleep 5,
      Dom (KeyDown 7 (CharKey CHR ''n'')), Dom (ExecInsertText ''n''),
      Dom (KeyUp 7 (CharKey CHR ''n'')), Sleep 5,
      Dom (KeyDown 7 (CharKey CHR ''g'')), Dom (ExecInsertText ''g''),
      Dom (KeyUp 7 (CharKey CHR ''g'')), Sleep 5,
      Sleep 200, Dom (KeyDown 7 Enter), Dom (KeyUp 7 Enter)]"

section \<open>Properties\<close>

declare smartRetryLoop.simps [simp del]
declare waitLoop.simps [simp del]
declare openChatLoop.simps [simp del]
declare contactsLoop.simps [simp del]
declare targetsLoop.simps [simp del]

subsection \<open>Strings\<close>

lemma includesStr_sublist: "includesStr s p \<longleftrightarrow> sublist p s"
proof (induction s)
  case Nil
  show ?case by auto
next
  case (Cons c cs)
  have "prefix p (c # cs) \<longleftrightarrow> take (length p) (c # cs) = p"
    by (metis append_eq_conv_conj prefix_def append_take_drop_id)
  with Cons show ?case by (simp add: sublist_Cons_right del: take.simps)
qed

lemma trimWith_blank: "trimWith white s = [] \<longleftrightarrow> (\<forall>c\<in>set s. white c)"
proof
  assume "trimWith white s = []"
  then have "dropWhile white (rev (dropWhile white s)) = []"
    by (simp add: trimWith_def)
  then have "\<forall>c\<in>set (rev (dropWhile white s)). white c"
    by (simp only: dropWhile_eq_Nil_conv)
  then have all: "\<forall>c\<in>set (dropWhile white s). white c"
    by (simp only: set_rev)
  have "dropWhile white s = []"
  proof (rule ccontr)
    assume ne: "dropWhile white s \<noteq> []"
    then have "\<not> white (hd (dropWhile white s))" by (rule hd_dropWhile)
    moreover have "hd (dropWhile white s) \<in> set (dropWhile white s)" using ne by (rule hd_in_set)
    ultimately show False using all by blast
  qed
  then show "\<forall>c\<in>set s. white c" by (simp only: dropWhile_eq_Nil_conv)
next
  assume "\<forall>c\<in>set s. white c"
  then have d: "dropWhile white s = []" by (simp only: dropWhile_eq_Nil_conv)
  show "trimWith white s = []" unfolding trimWith_def d by simp
qed

lemma isWhiteSpace_iff: "isWhiteSpace c \<longleftrightarrow> c \<in> whiteSpace"
  by (auto simp: isWhiteSpace_def whiteSpace_def)

lemma trim_blank: "trim s = [] \<longleftrightarrow> set s \<subseteq> whiteSpace"
  by (auto simp: trim_def trimWith_blank isWhiteSpace_iff)

lemma codeUnits_simps [simp]:
  "codeUnits [] = []"
  "codeUnits s = [] \<longleftrightarrow> s = []"
  "codeUnits a = codeUnits b \<longleftrightarrow> a = b"
  "length (codeUnits s) = length s"
  "take n (codeUnits s) = codeUnits (take n s)"
  "[] = codeUnits s \<longleftrightarrow> s = []"
  by (auto simp: codeUnits_def inj_map_eq_map inj_def take_map)

lemma trim_Nil [simp]: "trim [] = []"
  by (simp add: trim_def trimWith_def)

lemma includesStr_codeUnits [simp]:
  "includesStr (codeUnits a) (codeUnits b) = includesStr a b"
proof (induction a)
  case Nil
  show ?case by simp
next
  case (Cons c cs)
  have "take (length b) (codeUnits (c # cs)) = codeUnits b \<longleftrightarrow> take (length b) (c # cs) = b"
    by (simp only: codeUnits_simps)
  moreover have "codeUnits (c # cs) = of_char c # codeUnits cs"
    by (simp add: codeUnits_def)
  ultimately show ?case using Cons by (simp del: take.simps)
qed

lemma trim_codeUnits [simp]: "trim (codeUnits s) = codeUnits (trimText s)"
  by (simp add: trim_def trimText_def trimWith_def codeUnits_def dropWhile_map rev_map comp_def)

subsection \<open>The retry controller\<close>

lemma returned_plain:
  "r \<noteq> Inl (Thrown JUndefined) \<Longrightarrow> r \<noteq> Inl (Thrown JNull) \<Longrightarrow>
   returned r = (if succeeded r then Some r else None)"
proof (cases r)
  case (Inr v)
  then show ?thesis by (simp add: succeeded_def)
next
  case (Inl error)
  assume "r \<noteq> Inl (Thrown JUndefined)" "r \<noteq> Inl (Thrown JNull)"
  then show ?thesis
    unfolding Inl
    by (cases error rule: messageOf.cases) (simp_all add: succeeded_def)
qed

lemma smartRetryLoop_find:
  assumes plain: "\<And>t. fst (operation t) \<noteq> Inl (Thrown JUndefined)
                       \<and> fst (operation t) \<noteq> Inl (Thrown JNull)"
    and "1 \<le> a" "a \<le> n"
  shows "smartRetryLoop operation n a (beforeAttempt operation a s0) =
     (case List.find (attemptOk operation s0) [a..<Suc n] of
        Some k \<Rightarrow> operation (beforeAttempt operation k s0)
      | None \<Rightarrow> (Inr (JBool False), snd (operation (beforeAttempt operation n s0))))"
  using assms(2,3)
proof (induction "n - a" arbitrary: a)
  case 0
  then have an: "a = n" by simp
  have up: "[n..<Suc n] = [n]" by simp
  obtain r s1 where op: "operation (beforeAttempt operation n s0) = (r, s1)"
    by (cases "operation (beforeAttempt operation n s0)")
  have ret: "returned r = (if succeeded r then Some r else None)"
    using plain[of "beforeAttempt operation n s0"] op by (intro returned_plain) simp_all
  have after: "smartRetryLoop operation n (Suc n) s1 = (Inr (JBool False), s1)"
    by (subst smartRetryLoop.simps) simp
  show ?case unfolding an up
    by (subst smartRetryLoop.simps) (simp add: op ret after attemptOk_def)
next
  case (Suc d)
  then have lt: "a < n" and d: "d = n - Suc a" by simp_all
  obtain k where a: "a = Suc k" using Suc.prems(1) by (cases a) auto
  have up: "[a..<Suc n] = a # [Suc a..<Suc n]" using lt by (simp add: upt_conv_Cons)
  obtain r s1 where op: "operation (beforeAttempt operation a s0) = (r, s1)"
    by (cases "operation (beforeAttempt operation a s0)")
  have ret: "returned r = (if succeeded r then Some r else None)"
    using plain[of "beforeAttempt operation a s0"] op by (intro returned_plain) simp_all
  have nxt: "beforeAttempt operation (Suc a) s0 = sleep (backoff a) s1"
    using op by (simp add: a)
  have ih: "smartRetryLoop operation n (Suc a) (beforeAttempt operation (Suc a) s0) =
     (case List.find (attemptOk operation s0) [Suc a..<Suc n] of
        Some k \<Rightarrow> operation (beforeAttempt operation k s0)
      | None \<Rightarrow> (Inr (JBool False), snd (operation (beforeAttempt operation n s0))))"
    using Suc.hyps(1)[of "Suc a"] d lt by simp
  show ?case unfolding up
    apply (subst smartRetryLoop.simps)
    using lt ih
    by (simp add: op ret attemptOk_def nxt)
qed

lemma smartRetry_outcome:
  assumes "\<And>t. fst (operation t) \<noteq> Inl (Thrown JUndefined)
                \<and> fst (operation t) \<noteq> Inl (Thrown JNull)"
  shows "smartRetry operation maxRetries s = retryOutcome operation maxRetries s"
proof (cases "maxRetries = 0")
  case True
  then show ?thesis
    by (simp add: smartRetry_def retryOutcome_def smartRetryLoop.simps)
next
  case False
  then have "1 \<le> maxRetries" by simp
  then have "smartRetryLoop operation maxRetries 1 (beforeAttempt operation 1 s) =
     (case List.find (attemptOk operation s) [1..<Suc maxRetries] of
        Some k \<Rightarrow> operation (beforeAttempt operation k s)
      | None \<Rightarrow> (Inr (JBool False), snd (operation (beforeAttempt operation maxRetries s))))"
    by (intro smartRetryLoop_find assms) simp_all
  then show ?thesis using False by (simp add: smartRetry_def retryOutcome_def)
qed

lemma smartRetry_resolves:
  assumes "\<And>t. \<exists>v. fst (operation t) = Inr v"
  shows "\<exists>v. fst (smartRetry operation maxRetries s) = Inr v"
proof -
  have plain: "\<And>t. fst (operation t) \<noteq> Inl (Thrown JUndefined)
                 \<and> fst (operation t) \<noteq> Inl (Thrown JNull)"
    using assms by (metis sum.distinct(1))
  show ?thesis
    unfolding smartRetry_outcome[OF plain] retryOutcome_def
    using assms by (simp split: option.splits)
qed

lemma upt_1_4: "[1..<Suc 3] = [1, 2, 3]"
  by (simp add: upt_conv_Cons)

lemma beforeAttempt_2: "beforeAttempt operation 2 s = sleep 1000 (snd (operation s))"
  by (simp add: numeral_2_eq_2 backoff_def)

lemma beforeAttempt_3:
  "beforeAttempt operation 3 s =
     sleep 2000 (snd (operation (sleep 1000 (snd (operation s)))))"
  by (simp add: numeral_3_eq_3 backoff_def)

text \<open>With three attempts allowed, an operation that throws an \<open>Error\<close>, then resolves
  \<open>false\<close>, then resolves a truthy value is retried after 1000 ms and after 2000 ms, and its
  third value is returned.\<close>

lemma smartRetry_flaky:
  "smartRetry flaky 3 idle = (Inr (JStr ''done''), idle\<lparr>trace := [Sleep 1000, Sleep 2000]\<rparr>)"
proof -
  have plain: "\<And>t. fst (flaky t) \<noteq> Inl (Thrown JUndefined) \<and> fst (flaky t) \<noteq> Inl (Thrown JNull)"
    by (simp add: flaky_def split: nat.splits)
  show ?thesis
    unfolding smartRetry_outcome[OF plain] retryOutcome_def upt_1_4
    by (simp add: attemptOk_def succeeded_def beforeAttempt_2 beforeAttempt_3 flaky_def idle_def
        sleep_def emit_def)
qed

text \<open>
  C5 (a defect of the code). An operation that rejects with \<open>null\<close> is not retried: the
  \<open>catch\<close> of the first attempt evaluates \<open>error.message\<close>, that read throws a \<open>TypeError\<close>,
  and \<open>smartRetry\<close> rejects with it at once, without a sleep and without a second attempt.
  The controller as specified retries an operation that throws: it would make three attempts,
  sleep 1000 ms and 2000 ms between them, and return \<open>false\<close>.
\<close>

theorem smartRetry_rejects_on_null:
  "fst (rejecting idle) = Inl (Thrown JNull)
   \<and> smartRetry rejecting 3 idle = (Inl (ErrorObject (cannotRead ''null'' ''message'')), idle)
   \<and> retryOutcome rejecting 3 idle =
       (Inr (JBool False), idle\<lparr>trace := [Sleep 1000, Sleep 2000]\<rparr>)"
proof (intro conjI)
  show "fst (rejecting idle) = Inl (Thrown JNull)"
    by (simp add: rejecting_def)
  show "smartRetry rejecting 3 idle = (Inl (ErrorObject (cannotRead ''null'' ''message'')), idle)"
    by (simp add: smartRetry_def smartRetryLoop.simps[of rejecting 3 "Suc 0"] rejecting_def)
  show "retryOutcome rejecting 3 idle =
       (Inr (JBool False), idle\<lparr>trace := [Sleep 1000, Sleep 2000]\<rparr>)"
    unfolding retryOutcome_def upt_1_4
    by (simp add: attemptOk_def succeeded_def beforeAttempt_2 beforeAttempt_3 rejecting_def
        idle_def sleep_def emit_def)
qed


subsection \<open>The send verifier\<close>

lemma waitLoop_find:
  assumes "i \<le> 15"
  shows "waitLoop e messageText i (s\<lparr>trace := trace s @ replicate i (Sleep 200)\<rparr>) =
     (case List.find (pollConfirms e messageText s) [i..<15] of
        Some k \<Rightarrow> (True, s\<lparr>trace := pollHistory s k\<rparr>)
      | None \<Rightarrow> (False, s\<lparr>trace := trace s @ replicate 15 (Sleep 200)\<rparr>))"
  using assms
proof (induction "15 - i" arbitrary: i)
  case 0
  then have "i = 15" by simp
  then show ?case by (subst waitLoop.simps) simp
next
  case (Suc d)
  then have lt: "i < 15" and d: "d = 15 - Suc i" by simp_all
  have up: "[i..<15] = i # [Suc i..<15]" using lt by (simp add: upt_conv_Cons)
  have nxt: "sleep 200 (s\<lparr>trace := trace s @ replicate i (Sleep 200)\<rparr>) =
             s\<lparr>trace := trace s @ replicate (Suc i) (Sleep 200)\<rparr>"
    by (simp add: sleep_def emit_def replicate_append_same)
  have ih: "waitLoop e messageText (Suc i) (s\<lparr>trace := trace s @ replicate (Suc i) (Sleep 200)\<rparr>) =
     (case List.find (pollConfirms e messageText s) [Suc i..<15] of
        Some k \<Rightarrow> (True, s\<lparr>trace := pollHistory s k\<rparr>)
      | None \<Rightarrow> (False, s\<lparr>trace := trace s @ replicate 15 (Sleep 200)\<rparr>))"
    using Suc.hyps(1)[of "Suc i"] d lt by simp
  show ?case unfolding up
    apply (subst waitLoop.simps)
    using lt ih
    by (simp add: nxt Let_def pollConfirms_def pollHistory_def del: replicate.simps)
qed

lemma waitForMessageSent_find:
  "waitForMessageSent e messageText s =
     (case List.find (pollConfirms e messageText s) [0..<15] of
        Some k \<Rightarrow> (True, s\<lparr>trace := pollHistory s k\<rparr>)
      | None \<Rightarrow> (False, s\<lparr>trace := trace s @ replicate 15 (Sleep 200)\<rparr>))"
  using waitLoop_find[of 0 e messageText s] by (simp add: waitForMessageSent_def)

text \<open>The two checks of a poll in plain terms.\<close>

lemma inputCleared_plain:
  "inputCleared e h \<longleftrightarrow>
     (case composerText e h of None \<Rightarrow> True | Some t \<Rightarrow> set t \<subseteq> whiteSpace)"
  by (simp add: inputCleared_def composerText_def trim_blank split: option.splits)

lemma messageFound_plain:
  "messageFound e messageText h \<longleftrightarrow>
     (\<exists>msg\<in>set (pageNodes e h).
        (dataTestid msg = Some ''msg-container'' \<or> outgoing msg) \<and> carries messageText msg)"
  by (auto simp: messageFound_def list_ex_iff messageSelector_def outgoing_def carries_def
      includesStr_sublist substring0_def)

lemma find_first_upt:
  assumes "k < n" "P k" "\<forall>j<k. \<not> P j"
  shows "List.find P [0..<n] = Some k"
proof -
  have "\<exists>i<length [0..<n]. P ([0..<n] ! i) \<and> k = [0..<n] ! i \<and> (\<forall>j<i. \<not> P ([0..<n] ! j))"
    using assms by (intro exI[of _ k]) simp
  then show ?thesis by (simp only: find_Some_iff)
qed

lemma silentPage_obs [simp]:
  "pageNodes silentPage h = []"
  "findMessageInputBox silentPage h = Some 7"
  "content silentPage h el = []"
  by (simp_all add: silentPage_def)

text \<open>
  C6 (as the code has it). \<open>waitForMessageSent\<close> sleeps 200 ms before each of at most 15 polls
  and does nothing else. It returns true exactly when at some poll both checks hold at once:
  the composer found at that poll holds nothing but white space, or no composer is found; and
  some element that is a message container (of either direction) or an outgoing message has a
  non-empty text that contains the first 30 characters of the sent text. It stops at the
  first such poll; otherwise it returns false after the fifteenth sleep. In particular, when
  the composer is clear at every poll but no such element shows the text, it returns false.
\<close>

theorem waitForMessageSent_contract:
  fixes e :: env and messageText :: string and s :: sched
  defines "clear \<equiv> (\<lambda>k. case composerText e (pollHistory s k) of
                            None \<Rightarrow> True | Some t \<Rightarrow> set t \<subseteq> whiteSpace)"
  defines "shown \<equiv> (\<lambda>k. \<exists>msg\<in>set (pageNodes e (pollHistory s k)).
                       (dataTestid msg = Some ''msg-container'' \<or> outgoing msg)
                       \<and> carries messageText msg)"
  shows "(fst (waitForMessageSent e messageText s) \<longleftrightarrow> (\<exists>k<15. clear k \<and> shown k))
       \<and> (\<forall>k<15. clear k \<and> shown k \<and> (\<forall>j<k. \<not> (clear j \<and> shown j)) \<longrightarrow>
             waitForMessageSent e messageText s = (True, s\<lparr>trace := pollHistory s k\<rparr>))
       \<and> ((\<forall>k<15. \<not> (clear k \<and> shown k)) \<longrightarrow>
             waitForMessageSent e messageText s =
               (False, s\<lparr>trace := trace s @ replicate 15 (Sleep 200)\<rparr>))
       \<and> ((\<forall>k<15. clear k \<and> \<not> shown k) \<longrightarrow>
             waitForMessageSent e messageText s =
               (False, s\<lparr>trace := trace s @ replicate 15 (Sleep 200)\<rparr>))"
proof -
  have pc: "pollConfirms e messageText s k \<longleftrightarrow> clear k \<and> shown k" for k
    by (simp add: pollConfirms_def inputCleared_plain messageFound_plain clear_def shown_def)
  have none: "waitForMessageSent e messageText s =
               (False, s\<lparr>trace := trace s @ replicate 15 (Sleep 200)\<rparr>)"
    if "\<forall>k<15. \<not> (clear k \<and> shown k)"
  proof -
    have "List.find (pollConfirms e messageText s) [0..<15] = None"
      using that by (auto simp: find_None_iff pc)
    then show ?thesis by (simp add: waitForMessageSent_find)
  qed
  have first: "waitForMessageSent e messageText s = (True, s\<lparr>trace := pollHistory s k\<rparr>)"
    if "k < 15" "clear k \<and> shown k" "\<forall>j<k. \<not> (clear j \<and> shown j)" for k
  proof -
    have "List.find (pollConfirms e messageText s) [0..<15] = Some k"
      using that by (intro find_first_upt) (simp_all add: pc)
    then show ?thesis by (simp add: waitForMessageSent_find)
  qed
  have iff: "fst (waitForMessageSent e messageText s) \<longleftrightarrow> (\<exists>k<15. clear k \<and> shown k)"
  proof (cases "List.find (pollConfirms e messageText s) [0..<15]")
    case None
    have "\<not> fst (waitForMessageSent e messageText s)"
      by (simp add: waitForMessageSent_find None)
    moreover have "\<not> (\<exists>k<15. clear k \<and> shown k)"
      using None by (auto simp: find_None_iff pc)
    ultimately show ?thesis by simp
  next
    case (Some k)
    have "fst (waitForMessageSent e messageText s)"
      by (simp add: waitForMessageSent_find Some)
    moreover have "k < 15 \<and> pollConfirms e messageText s k"
      using Some by (auto simp: find_Some_iff)
    ultimately show ?thesis using pc by blast
  qed
  show ?thesis
    using iff first none by blast
qed

theorem waitForMessageSent_contract_witness:
  "list_all (\<lambda>k. composerText silentPage (pollHistory idle k) = Some []
                  \<and> pageNodes silentPage (pollHistory idle k) = []) [0..<15]
   \<and> waitForMessageSent silentPage ''Ping'' idle =
       (False, idle\<lparr>trace := replicate 15 (Sleep 200)\<rparr>)
   \<and> composerText bobPage [Dom (KeyDown 7 Enter), Sleep 200] = Some []
   \<and> pageNodes bobPage [Dom (KeyDown 7 Enter), Sleep 200] = [sentPing]
   \<and> outgoing sentPing \<and> carries ''Ping'' sentPing
   \<and> waitForMessageSent bobPage ''Ping'' (idle\<lparr>trace := [Dom (KeyDown 7 Enter)]\<rparr>) =
       (True, idle\<lparr>trace := [Dom (KeyDown 7 Enter), Sleep 200]\<rparr>)"
proof -
  have quiet: "composerText silentPage h = Some []" "pageNodes silentPage h = []" for h
    by (simp_all add: composerText_def)
  have lag: "waitForMessageSent silentPage ''Ping'' idle =
          (False, idle\<lparr>trace := trace idle @ replicate 15 (Sleep 200)\<rparr>)"
    using waitForMessageSent_contract[of silentPage "''Ping''" idle] by (simp add: quiet)
  have t0: "trace idle = []" by (simp add: idle_def)
  let ?s = "idle\<lparr>trace := [Dom (KeyDown 7 Enter)]\<rparr>"
  have h0: "pollHistory ?s 0 = [Dom (KeyDown 7 Enter), Sleep 200]"
    by (simp add: pollHistory_def)
  have seen: "composerText bobPage [Dom (KeyDown 7 Enter), Sleep 200] = Some []"
    "pageNodes bobPage [Dom (KeyDown 7 Enter), Sleep 200] = [sentPing]"
    "outgoing sentPing" "carries ''Ping'' sentPing"
    by (simp_all add: composerText_def bobPage_def outgoing_def carries_def sentPing_def)
  have "waitForMessageSent bobPage ''Ping'' ?s = (True, ?s\<lparr>trace := pollHistory ?s 0\<rparr>)"
    by (rule waitForMessageSent_contract[of bobPage "''Ping''" ?s, THEN conjunct2,
          THEN conjunct1, rule_format, of 0])
       (simp_all add: h0 seen)
  then have ok: "waitForMessageSent bobPage ''Ping'' ?s =
                 (True, idle\<lparr>trace := [Dom (KeyDown 7 Enter), Sleep 200]\<rparr>)"
    by (simp add: h0)
  show ?thesis
    using lag ok seen by (simp add: t0 quiet list_all_iff)
qed

text \<open>A received message that shows the text confirms the send, with no outgoing message
  on the page; so does a sent one when no composer is found, and when the composer holds two
  characters of white space.\<close>

theorem waitForMessageSent_contract_counterexample:
  "waitForMessageSent incomingPage ''Ping'' idle = (True, idle\<lparr>trace := [Sleep 200]\<rparr>)
   \<and> pageNodes incomingPage [Sleep 200] = [receivedPing] \<and> \<not> outgoing receivedPing
   \<and> waitForMessageSent barePage ''Ping'' idle = (True, idle\<lparr>trace := [Sleep 200]\<rparr>)
   \<and> findMessageInputBox barePage [Sleep 200] = None
   \<and> waitForMessageSent blankPage ''Ping'' idle = (True, idle\<lparr>trace := [Sleep 200]\<rparr>)
   \<and> findMessageInputBox blankPage [Sleep 200] = Some 7
   \<and> content blankPage [Sleep 200] 7 = [0xA0, 0x2003]"
  by (simp add: waitForMessageSent_def waitLoop.simps[of _ _ 0] inputCleared_def
      messageFound_def messageSelector_def trim_def trimWith_def isWhiteSpace_def
      substring0_def codeUnits_def sleep_def emit_def incomingPage_def barePage_def
      blankPage_def silentPage_def receivedPing_def sentPing_def outgoing_def idle_def)

subsection \<open>Due schedules\<close>

text \<open>
  C2. \<open>shouldSendMessage\<close> is true exactly for a schedule that is not yet sent, whose time
  equals the current time string, on a page without the disconnect banner; a schedule
  already marked sent is never due.
\<close>

theorem shouldSendMessage_iff:
  "(shouldSendMessage e h schedule currentTime \<longleftrightarrow>
      \<not> sent schedule \<and> time schedule = currentTime \<and> isWhatsAppConnected e h)
   \<and> (sent schedule \<longrightarrow> \<not> shouldSendMessage e h schedule currentTime)"
  by (simp add: shouldSendMessage_def)


theorem shouldSendMessage_iff_witness:
  "sent (morning\<lparr>sent := True\<rparr>)
   \<and> \<not> shouldSendMessage silentPage [] (morning\<lparr>sent := True\<rparr>) ''09:00''
   \<and> shouldSendMessage silentPage [] morning ''09:00''
   \<and> \<not> shouldSendMessage silentPage [] morning ''09:01''"
proof -
  have "sent (morning\<lparr>sent := True\<rparr>)" by simp
  moreover have "\<not> sent morning" "time morning = ''09:00''"
    by (simp_all add: morning_def)
  moreover have "isWhatsAppConnected silentPage []"
    by (simp add: isWhatsAppConnected_def silentPage_def)
  ultimately show ?thesis
    using shouldSendMessage_iff[of silentPage "[]" "morning\<lparr>sent := True\<rparr>" "''09:00''"]
      shouldSendMessage_iff[of silentPage "[]" morning "''09:00''"]
      shouldSendMessage_iff[of silentPage "[]" morning "''09:01''"]
    by simp
qed

lemmas prims = emit_def sleep_def dom_def updateStatus_def steps_def showNotification_def

subsection \<open>What the steps below the orchestrator leave alone\<close>

lemma settled_prims [simp]:
  "settled (emit ev s) = settled s"
  "settled (sleep ms s) = settled s"
  "settled (dom a s) = settled s"
  "settled (updateStatus m t s) = settled s"
  "settled (s\<lparr>trace := h\<rparr>) = settled s"
  "settled (s\<lparr>lastSendTime := t0\<rparr>) = settled s"
  by (simp_all add: prims settled_def)

lemma store_prims [simp]:
  "store (emit ev s) = store s"
  "store (sleep ms s) = store s"
  "store (dom a s) = store s"
  "store (updateStatus m t s) = store s"
  "mirror (emit ev s) = mirror s"
  "mirror (sleep ms s) = mirror s"
  "mirror (dom a s) = mirror s"
  "mirror (updateStatus m t s) = mirror s"
  by (simp_all add: prims)

lemma settled_fields:
  assumes "settled s' = settled s"
  shows "store s' = store s" "isSending s' = isSending s" "autoRetry s' = autoRetry s"
    "sendDelay s' = sendDelay s" "isCheckingSchedules s' = isCheckingSchedules s"
    "isRunning s' = isRunning s" "mirror s' = mirror s"
  using assms by (simp_all add: settled_def)

lemma settled_waitForMessageSent [simp]:
  "settled (snd (waitForMessageSent e messageText s)) = settled s"
  by (simp add: waitForMessageSent_find split: option.splits)

lemma settled_fold_typeChar [simp]:
  "settled (fold (typeChar inputBox) messageText s) = settled s"
  by (induction messageText arbitrary: s) (simp_all add: typeChar_def steps_def)

lemma settled_steps2 [simp]: "settled (pressEnter el s) = settled s"
  by (simp add: pressEnter_def steps_def)

lemma settled_confirmSend [simp]: "settled (snd (confirmSend e messageText s)) = settled s"
  by (simp add: confirmSend_def case_prod_beta)

lemma settled_clipboardMethod [simp]:
  "settled (snd (clipboardMethod e messageText inputBox s)) = settled s"
  by (simp add: clipboardMethod_def steps_def Let_def)

lemma settled_insertionMethod [simp]:
  "settled (snd (insertionMethod e messageText inputBox s)) = settled s"
  by (simp add: insertionMethod_def steps_def Let_def)

lemma settled_typingMethod [simp]:
  "settled (snd (typingMethod e messageText inputBox s)) = settled s"
  by (simp add: typingMethod_def steps_def Let_def)

lemma settled_injectAndSendMessage [simp]:
  "settled (snd (injectAndSendMessage e messageText s)) = settled s"
  by (simp add: injectAndSendMessage_def Let_def case_prod_beta split: option.splits)

lemma settled_setContentDirectly [simp]:
  "settled (snd (setContentDirectly e inputBox messageText s)) = settled s"
  by (simp add: setContentDirectly_def steps_def Let_def)

lemma settled_insertMessageText [simp]:
  "settled (snd (insertMessageText e inputBox messageText s)) = settled s"
  by (simp add: insertMessageText_def steps_def Let_def)

lemma settled_clearInputBox [simp]: "settled (clearInputBox e inputBox s) = settled s"
  by (simp add: clearInputBox_def steps_def Let_def)

lemma settled_searchAndSelect [simp]:
  "settled (searchAndSelect e searchInput chatName s) = settled s"
  by (simp add: searchAndSelect_def focusElement_def steps_def Let_def)

lemma settled_openChatLoop [simp]:
  "settled (snd (openChatLoop e chatName retries attempt s)) = settled s"
proof (induction e chatName retries attempt s rule: openChatLoop.induct)
  case (1 e chatName retries attempt s)
  show ?case
  proof (cases "attempt < retries")
    case False
    then show ?thesis by (subst openChatLoop.simps) simp
  next
    case True
    define s1 where "s1 = updateStatus (OpeningChat chatName) SWorking s"
    show ?thesis
    proof (cases "findSearchInput e (trace s1)")
      case None
      have "settled (snd (openChatLoop e chatName retries (Suc attempt) (sleep 300 s1))) =
            settled (sleep 300 s1)"
        using "1.IH"(1)[OF True s1_def None] .
      then show ?thesis
        using True None by (subst openChatLoop.simps) (simp add: s1_def[symmetric], simp add: s1_def)
    next
      case (Some searchInput)
      define s2 where "s2 = searchAndSelect e searchInput chatName s1"
      show ?thesis
      proof (cases "case findMessageInputBox e (trace s2) of
                      Some messageInput \<Rightarrow> \<not> isSearchBox e (trace s2) messageInput
                    | None \<Rightarrow> False")
        case ok: True
        then show ?thesis
          using True Some
          by (subst openChatLoop.simps) (simp add: s1_def[symmetric] s2_def[symmetric], simp add: s1_def s2_def)
      next
        case no: False
        have "settled (snd (openChatLoop e chatName retries (Suc attempt) (sleep 500 s2))) =
              settled (sleep 500 s2)"
          using "1.IH"(2)[OF True s1_def Some s2_def no] .
        then show ?thesis
          using True Some no
          by (subst openChatLoop.simps) (simp add: s1_def[symmetric] s2_def[symmetric], simp add: s1_def s2_def)
      qed
    qed
  qed
qed



lemma settled_smartRetryLoop:
  assumes op: "\<And>t. settled (snd (operation t)) = settled t"
  shows "settled (snd (smartRetryLoop operation maxRetries attempt s)) = settled s"
proof (induction "Suc maxRetries - attempt" arbitrary: attempt s)
  case 0
  then have "\<not> attempt \<le> maxRetries" by simp
  then show ?case by (subst smartRetryLoop.simps) simp
next
  case (Suc d)
  then have le: "attempt \<le> maxRetries" and d: "d = Suc maxRetries - Suc attempt" by simp_all
  obtain r s1 where o: "operation s = (r, s1)" by (cases "operation s")
  have s1: "settled s1 = settled s" using op[of s] o by simp
  have ih: "\<And>t. settled (snd (smartRetryLoop operation maxRetries (Suc attempt) t)) = settled t"
    using Suc.hyps(1)[of "Suc attempt"] d by simp
  show ?case
    apply (subst smartRetryLoop.simps)
    using le by (cases "returned r"; simp add: o s1 ih)
qed

lemma settled_smartRetry:
  "(\<And>t. settled (snd (operation t)) = settled t) \<Longrightarrow>
   settled (snd (smartRetry operation maxRetries s)) = settled s"
  by (simp add: smartRetry_def settled_smartRetryLoop)

lemma settled_switchScheduled [simp]: "settled (snd (switchScheduled e name s)) = settled s"
  by (simp add: switchScheduled_def case_prod_beta settled_smartRetry openChatOp_def openChat_def)

lemma settled_sendScheduled [simp]: "settled (snd (sendScheduled e messageText s)) = settled s"
  by (simp add: sendScheduled_def case_prod_beta settled_smartRetry injectOp_def)

lemma settled_deliverEach:
  assumes "\<And>name t. settled (snd (switch name t)) = settled t"
    and "\<And>t. settled (snd (send t)) = settled t"
  shows "settled (snd (deliverEach switch send targets success s)) = settled s"
proof (induction targets arbitrary: success s)
  case Nil
  show ?case by simp
next
  case (Cons name rest)
  show ?case
    by (simp add: Let_def case_prod_beta Cons.IH assms)
qed

subsection \<open>The loops over the targets\<close>

text \<open>The two operations that the orchestrator hands to \<open>smartRetry\<close> never throw, so
  neither does \<open>smartRetry\<close> on them.\<close>

lemma switch_resolves:
  "\<exists>v s1. smartRetry (openChatOp e name) (if autoRetry s then 3 else 1) s = (Inr v, s1)
          \<and> switchScheduled e name s = (truthy v, s1)"
proof -
  have "\<exists>v. fst (smartRetry (openChatOp e name) (if autoRetry s then 3 else 1) s) = Inr v"
    by (rule smartRetry_resolves) (simp add: openChatOp_def case_prod_beta)
  then obtain v where
    "fst (smartRetry (openChatOp e name) (if autoRetry s then 3 else 1) s) = Inr v" ..
  then show ?thesis
    by (intro exI[of _ v]
          exI[of _ "snd (smartRetry (openChatOp e name) (if autoRetry s then 3 else 1) s)"])
       (simp add: switchScheduled_def case_prod_beta succeeded_def prod_eq_iff)
qed

lemma send_resolves:
  "\<exists>v s1. smartRetry (injectOp e messageText) 2 (sleep 300 s) = (Inr v, s1)
          \<and> sendScheduled e messageText s = (truthy v, s1)"
proof -
  have "\<exists>v. fst (smartRetry (injectOp e messageText) 2 (sleep 300 s)) = Inr v"
    by (rule smartRetry_resolves) (simp add: injectOp_def case_prod_beta)
  then obtain v where "fst (smartRetry (injectOp e messageText) 2 (sleep 300 s)) = Inr v" ..
  then show ?thesis
    by (intro exI[of _ v] exI[of _ "snd (smartRetry (injectOp e messageText) 2 (sleep 300 s))"])
       (simp add: sendScheduled_def case_prod_beta succeeded_def prod_eq_iff)
qed

lemma contactsLoop_deliverEach:
  "i \<le> length contacts \<Longrightarrow>
   contactsLoop e messageText contacts i success s =
     (Inr (fst (deliverEach (switchScheduled e) (sendScheduled e messageText)
                  (drop i contacts) success s)),
      snd (deliverEach (switchScheduled e) (sendScheduled e messageText)
             (drop i contacts) success s))"
proof (induction "length contacts - i" arbitrary: i success s)
  case 0
  then show ?case by (subst contactsLoop.simps) simp
next
  case (Suc d)
  then have lt: "i < length contacts" and d: "d = length contacts - Suc i" by simp_all
  have dr: "drop i contacts = contacts ! i # drop (Suc i) contacts"
    using lt by (simp add: Cons_nth_drop_Suc)
  have last: "drop (Suc i) contacts = [] \<longleftrightarrow> \<not> Suc i < length contacts"
    by auto
  have ih: "\<And>b t. contactsLoop e messageText contacts (Suc i) b t =
     (Inr (fst (deliverEach (switchScheduled e) (sendScheduled e messageText)
                  (drop (Suc i) contacts) b t)),
      snd (deliverEach (switchScheduled e) (sendScheduled e messageText)
             (drop (Suc i) contacts) b t))"
    using Suc.hyps(1)[of "Suc i"] d lt by simp
  obtain v s1 where sw:
    "smartRetry (openChatOp e (contacts ! i)) (if autoRetry s then 3 else 1) s = (Inr v, s1)"
    "switchScheduled e (contacts ! i) s = (truthy v, s1)"
    using switch_resolves[of e "contacts ! i" s] by auto
  obtain w s3 where sd:
    "smartRetry (injectOp e messageText) 2 (sleep 300 s1) = (Inr w, s3)"
    "sendScheduled e messageText s1 = (truthy w, s3)"
    using send_resolves[of e messageText s1] by auto
  show ?case
    apply (subst contactsLoop.simps)
    apply (simp only: dr)
    using lt
    by (simp add: ih last sw sd Let_def del: Cons_nth_drop_Suc)
qed

lemma targetsLoop_deliverEach:
  "i \<le> length targets \<Longrightarrow>
   targetsLoop e messageText targets i success s =
     deliverEach (switchNow e) (sendNow e messageText) (drop i targets) success s"
proof (induction "length targets - i" arbitrary: i success s)
  case 0
  then show ?case by (subst targetsLoop.simps) simp
next
  case (Suc d)
  then have lt: "i < length targets" and d: "d = length targets - Suc i" by simp_all
  have dr: "drop i targets = targets ! i # drop (Suc i) targets"
    using lt by (simp add: Cons_nth_drop_Suc)
  have last: "drop (Suc i) targets = [] \<longleftrightarrow> \<not> Suc i < length targets"
    by auto
  have ih: "\<And>b t. targetsLoop e messageText targets (Suc i) b t =
     deliverEach (switchNow e) (sendNow e messageText) (drop (Suc i) targets) b t"
    using Suc.hyps(1)[of "Suc i"] d lt by simp
  show ?case
    apply (subst targetsLoop.simps)
    apply (subst dr)
    using lt
    by (simp add: ih last switchNow_def sendNow_def Let_def split: prod.splits)
qed

lemma deliverEach_or:
  "deliverEach switch send targets success s =
     (success \<or> fst (deliverEach switch send targets False s),
      snd (deliverEach switch send targets False s))"
proof (induction targets arbitrary: success s)
  case Nil
  then show ?case by simp
next
  case (Cons name rest)
  obtain opened s1 where sw: "switch name s = (opened, s1)"
    by (cases "switch name s")
  show ?case
  proof (cases opened)
    case False
    then show ?thesis
      using Cons.IH[of success s1] by (simp add: sw)
  next
    case True
    obtain sent s2 where sd: "send s1 = (sent, s2)"
      by (cases "send s1")
    define s3 where "s3 = (if rest = [] then s2 else sleep (sendDelay s2) s2)"
    have l: "deliverEach switch send (name # rest) success s =
             deliverEach switch send rest (success \<or> sent) s3"
      using True by (simp add: sw sd s3_def)
    have r: "deliverEach switch send (name # rest) False s =
             deliverEach switch send rest sent s3"
      using True by (simp add: sw sd s3_def)
    show ?thesis
      unfolding l r
      using Cons.IH[of "success \<or> sent" s3] Cons.IH[of sent s3] by simp
  qed
qed

lemma settled_contactsLoop [simp]:
  "settled (snd (contactsLoop e messageText contacts 0 success s)) = settled s"
  by (simp add: contactsLoop_deliverEach settled_deliverEach)

lemma settled_targetsLoop [simp]:
  "settled (snd (targetsLoop e messageText targets 0 success s)) = settled s"
  by (simp add: targetsLoop_deliverEach settled_deliverEach switchNow_def sendNow_def openChat_def)

lemma settled_resolveMessageText [simp]:
  "settled (snd (resolveMessageText e schedule s)) = settled s"
  by (simp add: resolveMessageText_def getClipboardText_def Let_def)

lemma settled_handlePostSendAction [simp]:
  "settled (handlePostSendAction e s) = settled s"
  by (simp add: handlePostSendAction_def Let_def)

text \<open>In particular the store is written by \<open>markScheduleSent\<close> only.\<close>

lemma store_contactsLoop [simp]:
  "store (snd (contactsLoop e messageText contacts 0 success s)) = store s"
  by (rule settled_fields(1)) simp

lemma store_resolveMessageText [simp]:
  "store (snd (resolveMessageText e schedule s)) = store s"
  by (rule settled_fields(1)) simp


subsection \<open>How a scheduled delivery runs\<close>

text \<open>A call that finds the flag clear sets it, resolves the text, delivers, and clears the
  flag. Without text it stops there; with contacts it runs the iteration over them; without
  contacts it sends to the open conversation under \<open>smartRetry\<close>.\<close>

lemma sendScheduledMessage_run:
  fixes e :: env and schedule :: schedule and s :: sched
  defines "msg \<equiv> fst (resolveMessageText e schedule (s\<lparr>isSending := True\<rparr>))"
  defines "s1 \<equiv> snd (resolveMessageText e schedule (s\<lparr>isSending := True\<rparr>))"
  defines "d \<equiv> deliverEach (switchScheduled e) (sendScheduled e msg) (contactsOf schedule)
                 False s1"
  defines "r \<equiv> smartRetry (injectOp e msg) 2 s1"
  assumes free: "\<not> isSending s"
  shows "sendScheduledMessage e schedule s =
           (JUndefined,
            (if msg = [] then s1
             else if contactsOf schedule \<noteq> []
             then afterDelivery e schedule msg (fst d) (snd d)
             else afterDelivery e schedule msg (succeeded (fst r)) (snd r))
            \<lparr>isSending := False\<rparr>)"
proof -
  have "\<exists>v. fst r = Inr v"
    unfolding r_def by (rule smartRetry_resolves) (simp add: injectOp_def case_prod_beta)
  then obtain v where v: "fst r = Inr v" ..
  show ?thesis
    using free v
    by (simp add: sendScheduledMessage_def case_prod_beta Let_def contactsLoop_deliverEach
        msg_def[symmetric] s1_def[symmetric] d_def[symmetric] r_def[symmetric] succeeded_def
        del: deliverEach.simps)
qed

subsection \<open>Runs on the page that works for Bob\<close>

lemma bobPage_obs [simp]:
  "dateNow bobPage h = 100000"
  "findMessageInputBox bobPage h = Some 7"
  "findSearchInput bobPage h =
     (if h \<noteq> [] \<and> last h = StatusUpdate (OpeningChat ''Bob'') SWorking then Some 3 else None)"
  "isSearchBox bobPage h el = (el = 3)"
  "content bobPage h el =
     (if el = 7 \<and> Dom (KeyDown 7 CtrlV) \<in> set h \<and> Dom (KeyDown 7 Enter) \<notin> set h
      then codeUnits ''Ping'' else [])"
  "pageNodes bobPage h = (if Dom (KeyDown 7 Enter) \<in> set h then [sentPing] else [])"
  "clipboardWriteOk bobPage h t = True"
  "clipboardReadText bobPage h = None"
  "execInsertTextOk bobPage h = True"
  "storageAvailable bobPage h = True"
  "storageReady bobPage h = True"
  "contextValid bobPage h = True"
  "storageGetError bobPage h = None"
  "storageSetError bobPage h = None"
  "localStorageOk bobPage h = True"
  "todayString bobPage h = ''Mon Nov 02 2026''"
  "currentTimeString bobPage h = ''09:00''"
  "postSendSetting bobPage h = None"
  "disconnectedBanner bobPage h = False"
  by (simp_all add: bobPage_def)

lemma sentPing_seen [simp]:
  "messageSelector sentPing" "textContent sentPing = codeUnits ''Ping''"
  by (simp_all add: messageSelector_def sentPing_def)

lemmas switch_defs = switchScheduled_def smartRetry_def smartRetryLoop.simps openChatOp_def
  openChat_def openChatLoop.simps prims backoff_def searchAndSelect_def focusElement_def
  clearInputBox_def insertMessageText_def setContentDirectly_def trimText_def trimWith_def
  isWhiteSpace_def succeeded_def

lemmas send_defs = injectAndSendMessage_def clipboardMethod_def confirmSend_def
  waitForMessageSent_def waitLoop.simps pressEnter_def inputCleared_def messageFound_def
  substring0_def sendCooldown_def prims

lemma switch_Alice:
  "autoRetry s \<Longrightarrow>
   switchScheduled bobPage ''Alice'' s = (False, s\<lparr>trace := trace s @ aliceTrace\<rparr>)"
  by (simp add: switch_defs aliceTrace_def)

lemma switch_Bob:
  "autoRetry s \<Longrightarrow>
   switchScheduled bobPage ''Bob'' s = (True, s\<lparr>trace := trace s @ bobOpenTrace\<rparr>)"
  by (simp add: switch_defs bobOpenTrace_def)

lemma inject_Ping:
  "lastSendTime s = 0 \<Longrightarrow> Dom (KeyDown 7 Enter) \<notin> set (trace s) \<Longrightarrow>
   injectAndSendMessage bobPage ''Ping'' s =
     (True, s\<lparr>trace := trace s @ pastingTrace @ submitTrace, lastSendTime := 100000\<rparr>)"
  by (simp add: send_defs pastingTrace_def submitTrace_def)

lemma retry_Ping:
  "lastSendTime s = 0 \<Longrightarrow> Dom (KeyDown 7 Enter) \<notin> set (trace s) \<Longrightarrow>
   smartRetry (injectOp bobPage ''Ping'') 2 s =
     (Inr (JBool True),
      s\<lparr>trace := trace s @ pastingTrace @ submitTrace, lastSendTime := 100000\<rparr>)"
  by (simp add: smartRetry_def smartRetryLoop.simps[of _ 2 "Suc 0"] injectOp_def inject_Ping)

lemma send_Bob:
  "lastSendTime s = 0 \<Longrightarrow> Dom (KeyDown 7 Enter) \<notin> set (trace s) \<Longrightarrow>
   sendScheduled bobPage ''Ping'' s =
     (True, s\<lparr>trace := trace s @ bobSendTrace, lastSendTime := 100000\<rparr>)"
  by (simp add: sendScheduled_def retry_Ping succeeded_def prims bobSendTrace_def pastingTrace_def
      submitTrace_def)

lemma no_Enter_yet:
  "Dom (KeyDown 7 Enter) \<notin> set aliceTrace" "Dom (KeyDown 7 Enter) \<notin> set bobOpenTrace"
  "Dom (KeyDown 7 Enter) \<notin> set pastingTrace"
  by (simp_all add: aliceTrace_def bobOpenTrace_def pastingTrace_def)

lemma ready_fields [simp]:
  "autoRetry ready" "lastSendTime ready = 0" "trace ready = []" "sendDelay ready = 3000"
  "\<not> isSending ready" "store ready = [morning]" "mirror ready = [morning]"
  by (simp_all add: ready_def idle_def)

lemma morning_fields [simp]:
  "sid morning = ''1730000000000''" "time morning = ''09:00''" "message morning = Some ''Ping''"
  "\<not> useClipboard morning" "contactsOf morning = [''Alice'', ''Bob'']"
  "contactsOf evening = [''Bob'', ''Alice'']"
  "sid evening = ''1730000000000''" "time evening = ''09:00''" "message evening = Some ''Ping''"
  "\<not> useClipboard evening" "\<not> sent morning"
  by (simp_all add: morning_def evening_def contactsOf_def)

lemma laterDue_fields [simp]:
  "sid laterDue = ''1730000000001''" "time laterDue = ''09:00''"
  "message laterDue = Some ''Ping''" "\<not> useClipboard laterDue" "contactsOf laterDue = []"
  "\<not> sent laterDue"
  by (simp_all add: laterDue_def morning_def contactsOf_def)

lemma morning_targets:
  "deliverEach (switchScheduled bobPage) (sendScheduled bobPage ''Ping'') [''Alice'', ''Bob'']
     False (ready\<lparr>isSending := True\<rparr>) =
   (True, ready\<lparr>isSending := True, trace := aliceTrace @ bobOpenTrace @ bobSendTrace,
             lastSendTime := 100000\<rparr>)"
  by (simp add: switch_Alice switch_Bob send_Bob no_Enter_yet)

lemma evening_targets:
  "deliverEach (switchScheduled bobPage) (sendScheduled bobPage ''Ping'') [''Bob'', ''Alice'']
     False (ready\<lparr>isSending := True\<rparr>) =
   (True, ready\<lparr>isSending := True,
             trace := bobOpenTrace @ bobSendTrace @ Sleep 3000 # aliceTrace,
             lastSendTime := 100000\<rparr>)"
  by (simp add: switch_Alice switch_Bob send_Bob no_Enter_yet prims)

text \<open>The end of a successful delivery of a schedule that is the one record of the store.\<close>

lemma closing:
  "trace s = h \<Longrightarrow> store s = [x] \<Longrightarrow>
   afterDelivery bobPage x ''Ping'' True s =
     s\<lparr>trace := h @ [MarkSent (sid x), StatusUpdate MessageSentOk SSuccess,
                      MessageSent (sid x) (time x) ''Ping'', PostSendTimer Refresh],
       store := [x\<lparr>sent := True, lastSentDate := Some ''Mon Nov 02 2026''\<rparr>],
       mirror := [x\<lparr>sent := True, lastSentDate := Some ''Mon Nov 02 2026''\<rparr>]\<rparr>"
  by (simp add: afterDelivery_def markScheduleSent_def updateSchedule_def getSchedules_def
      saveSchedules_def saveFallbackSchedules_def handlePostSendAction_def
      messagePreview_def substring0_def prims Let_def)

lemma resolve_Ping:
  "resolveMessageText bobPage morning s = (''Ping'', s)"
  "resolveMessageText bobPage evening s = (''Ping'', s)"
  "resolveMessageText bobPage laterDue s = (''Ping'', s)"
  by (simp_all add: resolveMessageText_def)

lemma closing_evening:
  "afterDelivery bobPage evening ''Ping'' True s = afterDelivery bobPage morning ''Ping'' True s"
  by (simp add: afterDelivery_def)

lemma morning_run:
  "sendScheduledMessage bobPage morning ready =
     (JUndefined,
      ready\<lparr>lastSendTime := 100000,
            store := [morning\<lparr>sent := True, lastSentDate := Some ''Mon Nov 02 2026''\<rparr>],
            mirror := [morning\<lparr>sent := True, lastSentDate := Some ''Mon Nov 02 2026''\<rparr>],
            trace := aliceTrace @ bobOpenTrace @ bobSendTrace @ closingTrace\<rparr>)"
proof -
  let ?s2 = "ready\<lparr>isSending := True, trace := aliceTrace @ bobOpenTrace @ bobSendTrace,
                   lastSendTime := 100000\<rparr>"
  have close: "afterDelivery bobPage morning ''Ping'' True ?s2 =
     ?s2\<lparr>trace := (aliceTrace @ bobOpenTrace @ bobSendTrace) @ closingTrace,
         store := [morning\<lparr>sent := True, lastSentDate := Some ''Mon Nov 02 2026''\<rparr>],
         mirror := [morning\<lparr>sent := True, lastSentDate := Some ''Mon Nov 02 2026''\<rparr>]\<rparr>"
    using closing[of ?s2 "aliceTrace @ bobOpenTrace @ bobSendTrace" morning]
    by (simp add: closingTrace_def)
  have "sendScheduledMessage bobPage morning ready =
     (JUndefined,
      (?s2\<lparr>trace := (aliceTrace @ bobOpenTrace @ bobSendTrace) @ closingTrace,
         store := [morning\<lparr>sent := True, lastSentDate := Some ''Mon Nov 02 2026''\<rparr>],
         mirror := [morning\<lparr>sent := True, lastSentDate := Some ''Mon Nov 02 2026''\<rparr>]\<rparr>)
      \<lparr>isSending := False\<rparr>)"
    using sendScheduledMessage_run[of ready bobPage morning]
    by (simp add: resolve_Ping morning_targets close del: deliverEach.simps)
  then show ?thesis by (simp add: ready_def idle_def)
qed


subsection \<open>The send-in-progress flag\<close>

lemma release_flag: "\<not> isSending s \<Longrightarrow> s\<lparr>isSending := True\<rparr>\<lparr>isSending := False\<rparr> = s"
  by (cases s) simp

lemma release_flag_emit:
  "\<not> isSending s \<Longrightarrow> (emit ev (s\<lparr>isSending := True\<rparr>))\<lparr>isSending := False\<rparr> = emit ev s"
  by (cases s) (simp add: emit_def)

lemma isSending_prims [simp]:
  "isSending (emit ev s) = isSending s"
  "isSending (updateStatus m t s) = isSending s"
  by (simp_all add: prims)

lemma isSending_markScheduleSent [simp]:
  "isSending (snd (markScheduleSent e i s)) = isSending s"
  by (simp add: markScheduleSent_def updateSchedule_def getSchedules_def saveSchedules_def
      saveFallbackSchedules_def Let_def emit_def split: option.splits)

lemma isSending_handlePostSendAction [simp]:
  "isSending (handlePostSendAction e s) = isSending s"
  by (rule settled_fields(2)) simp

lemma isSending_afterDelivery [simp]:
  "isSending (afterDelivery e schedule messageText success s) = isSending s"
  by (simp add: afterDelivery_def)


lemma sendToTargets_run:
  fixes e :: env and messageText :: string and contacts :: "string list" and s :: sched
  defines "targets \<equiv> filter (\<lambda>c. c \<noteq> []) contacts"
  defines "d \<equiv> (if targets \<noteq> []
                 then deliverEach (switchNow e) (sendNow e messageText) targets False
                        (s\<lparr>isSending := True\<rparr>)
                 else injectAndSendMessage e messageText (s\<lparr>isSending := True\<rparr>))"
  assumes free: "\<not> isSending s"
  shows "sendToTargets e messageText contacts s =
           (JBool (fst d),
            (if fst d then handlePostSendAction e (snd d) else snd d)\<lparr>isSending := False\<rparr>)"
  using free
  by (simp add: sendToTargets_def case_prod_beta Let_def targetsLoop_deliverEach d_def
      targets_def del: deliverEach.simps)



lemma waiting_fields [simp]:
  "lastSendTime waiting = 0" "trace waiting = []" "\<not> isSending waiting"
  "store waiting = [laterDue]" "mirror waiting = [laterDue]"
  by (simp_all add: waiting_def idle_def)

lemma pasted_fields [simp]:
  "lastSendTime pasted = 0" "\<not> isSending pasted" "store pasted = [laterDue]"
  "Dom (KeyDown 7 Enter) \<notin> set (trace pasted)"
  by (simp_all add: pasted_def pastingTrace_def)






subsection \<open>Nothing to send\<close>

text \<open>
  C4. A schedule with an empty message (or none) whose clipboard option is off, or whose
  clipboard read is rejected or gives the empty string, makes \<open>sendScheduledMessage\<close> return
  without touching the page: the state is unchanged apart from the one clipboard read,
  nothing else is appended to the history (no chat opened, no text injected, no submit), and
  the store is as before, so the schedule is not marked sent.
\<close>

theorem empty_message_aborts:
  "message schedule = Some [] \<or> message schedule = None \<Longrightarrow>
   \<not> useClipboard schedule \<or> clipboardReadText e (trace s @ [ClipboardRead]) = None
     \<or> clipboardReadText e (trace s @ [ClipboardRead]) = Some [] \<Longrightarrow>
   sendScheduledMessage e schedule s =
     (JUndefined, if useClipboard schedule \<and> \<not> isSending s then emit ClipboardRead s else s)
   \<and> store (snd (sendScheduledMessage e schedule s)) = store s
   \<and> list_all (\<lambda>ev. ev = ClipboardRead)
        (drop (length (trace s)) (trace (snd (sendScheduledMessage e schedule s))))"
  by (auto simp: sendScheduledMessage_def resolveMessageText_def getClipboardText_def
      release_flag release_flag_emit Let_def emit_def)

theorem empty_message_aborts_witness:
  "message (morning\<lparr>message := Some []\<rparr>) = Some []
   \<and> sendScheduledMessage bobPage (morning\<lparr>message := Some []\<rparr>) ready = (JUndefined, ready)
   \<and> sendScheduledMessage bobPage (morning\<lparr>message := Some [], useClipboard := True\<rparr>) ready =
       (JUndefined, ready\<lparr>trace := [ClipboardRead]\<rparr>)
   \<and> store (snd (sendScheduledMessage bobPage (morning\<lparr>message := Some [], useClipboard := True\<rparr>)
                   ready)) = [morning]
   \<and> sendScheduledMessage bobPage (morning\<lparr>message := None\<rparr>) ready = (JUndefined, ready)"
proof -
  have off: "\<not> useClipboard (morning\<lparr>message := Some []\<rparr>)"
    "\<not> useClipboard (morning\<lparr>message := None\<rparr>)"
    by (simp_all add: morning_def)
  have fails: "clipboardReadText bobPage (trace ready @ [ClipboardRead]) = None"
    by (simp add: bobPage_def)
  have idle: "\<not> isSending ready" "trace ready = []" "store ready = [morning]"
    by (simp_all add: ready_def idle_def)
  have "sendScheduledMessage bobPage (morning\<lparr>message := Some []\<rparr>) ready = (JUndefined, ready)"
    using empty_message_aborts[of "morning\<lparr>message := Some []\<rparr>" bobPage ready] off by simp
  moreover have "sendScheduledMessage bobPage (morning\<lparr>message := None\<rparr>) ready = (JUndefined, ready)"
    using empty_message_aborts[of "morning\<lparr>message := None\<rparr>" bobPage ready] off by simp
  moreover have "sendScheduledMessage bobPage (morning\<lparr>message := Some [], useClipboard := True\<rparr>) ready =
       (JUndefined, ready\<lparr>trace := [ClipboardRead]\<rparr>)"
    using empty_message_aborts[of "morning\<lparr>message := Some [], useClipboard := True\<rparr>" bobPage ready]
      fails idle by (simp add: emit_def)
  ultimately show ?thesis using idle by simp
qed

subsection \<open>The iteration over the targets\<close>

text \<open>
  C7 (as the code has it). With text to send and a non-empty target list, both orchestrators
  run the iteration \<open>deliverEach\<close> from the state in which the flag was set: the
  targets are taken in listed order, the conversation switcher is invoked for each in turn,
  the overall success is the disjunction of the results of the sends, and a sleep of
  \<open>sendDelay\<close> follows the send to every target that is not the last. A target whose
  conversation could not be opened is passed over without that sleep. The scheduled delivery
  then runs \<open>afterDelivery\<close>; the immediate one returns the flag and runs the post-send
  action on success.
\<close>

theorem targets_in_order:
  fixes e :: env and schedule :: schedule and s :: sched
  defines "text \<equiv> fst (resolveMessageText e schedule (s\<lparr>isSending := True\<rparr>))"
  defines "s1 \<equiv> snd (resolveMessageText e schedule (s\<lparr>isSending := True\<rparr>))"
  defines "d \<equiv> deliverEach (switchScheduled e) (sendScheduled e text) (contactsOf schedule)
                 False s1"
  defines "d' \<equiv> (\<lambda>messageText targets.
                 deliverEach (switchNow e) (sendNow e messageText) targets False
                   (s\<lparr>isSending := True\<rparr>))"
  shows "(\<not> isSending s \<and> text \<noteq> [] \<and> contactsOf schedule \<noteq> [] \<longrightarrow>
            sendScheduledMessage e schedule s =
              (JUndefined, (afterDelivery e schedule text (fst d) (snd d))\<lparr>isSending := False\<rparr>))
       \<and> (\<not> isSending s \<and> filter (\<lambda>c. c \<noteq> []) contacts \<noteq> [] \<longrightarrow>
            sendToTargets e messageText contacts s =
              (JBool (fst (d' messageText (filter (\<lambda>c. c \<noteq> []) contacts))),
               (if fst (d' messageText (filter (\<lambda>c. c \<noteq> []) contacts))
                then handlePostSendAction e (snd (d' messageText (filter (\<lambda>c. c \<noteq> []) contacts)))
                else snd (d' messageText (filter (\<lambda>c. c \<noteq> []) contacts)))
               \<lparr>isSending := False\<rparr>))
       \<and> deliverEach switch send names success s0 =
            (success \<or> fst (deliverEach switch send names False s0),
             snd (deliverEach switch send names False s0))"
proof (intro conjI impI)
  assume a: "\<not> isSending s \<and> text \<noteq> [] \<and> contactsOf schedule \<noteq> []"
  then show "sendScheduledMessage e schedule s =
              (JUndefined, (afterDelivery e schedule text (fst d) (snd d))\<lparr>isSending := False\<rparr>)"
    using sendScheduledMessage_run[of s e schedule]
    by (simp add: text_def s1_def d_def del: deliverEach.simps)
next
  assume a: "\<not> isSending s \<and> filter (\<lambda>c. c \<noteq> []) contacts \<noteq> []"
  then show "sendToTargets e messageText contacts s =
              (JBool (fst (d' messageText (filter (\<lambda>c. c \<noteq> []) contacts))),
               (if fst (d' messageText (filter (\<lambda>c. c \<noteq> []) contacts))
                then handlePostSendAction e (snd (d' messageText (filter (\<lambda>c. c \<noteq> []) contacts)))
                else snd (d' messageText (filter (\<lambda>c. c \<noteq> []) contacts)))
               \<lparr>isSending := False\<rparr>)"
    using sendToTargets_run[of s e messageText contacts]
    by (simp add: d'_def del: deliverEach.simps)
next
  show "deliverEach switch send names success s0 =
            (success \<or> fst (deliverEach switch send names False s0),
             snd (deliverEach switch send names False s0))"
    by (rule deliverEach_or)
qed

theorem targets_in_order_witness:
  "\<not> isSending ready \<and> message evening = Some ''Ping''
   \<and> contactsOf evening = [''Bob'', ''Alice''] \<and> sendDelay ready = 3000
   \<and> sendScheduledMessage bobPage evening ready =
       (JUndefined,
        ready\<lparr>lastSendTime := 100000,
              store := [morning\<lparr>sent := True, lastSentDate := Some ''Mon Nov 02 2026''\<rparr>],
              mirror := [morning\<lparr>sent := True, lastSentDate := Some ''Mon Nov 02 2026''\<rparr>],
              trace := bobOpenTrace @ bobSendTrace @ Sleep 3000 # aliceTrace @ closingTrace\<rparr>)"
proof -
  let ?s2 = "ready\<lparr>isSending := True,
                   trace := bobOpenTrace @ bobSendTrace @ Sleep 3000 # aliceTrace,
                   lastSendTime := 100000\<rparr>"
  have close: "afterDelivery bobPage morning ''Ping'' True ?s2 =
     ?s2\<lparr>trace := (bobOpenTrace @ bobSendTrace @ Sleep 3000 # aliceTrace) @ closingTrace,
         store := [morning\<lparr>sent := True, lastSentDate := Some ''Mon Nov 02 2026''\<rparr>],
         mirror := [morning\<lparr>sent := True, lastSentDate := Some ''Mon Nov 02 2026''\<rparr>]\<rparr>"
    using closing[of ?s2 "bobOpenTrace @ bobSendTrace @ Sleep 3000 # aliceTrace" morning]
    by (simp add: closingTrace_def)
  have "sendScheduledMessage bobPage evening ready =
     (JUndefined,
      (?s2\<lparr>trace := (bobOpenTrace @ bobSendTrace @ Sleep 3000 # aliceTrace) @ closingTrace,
         store := [morning\<lparr>sent := True, lastSentDate := Some ''Mon Nov 02 2026''\<rparr>],
         mirror := [morning\<lparr>sent := True, lastSentDate := Some ''Mon Nov 02 2026''\<rparr>]\<rparr>)
      \<lparr>isSending := False\<rparr>)"
    using targets_in_order[of ready bobPage evening]
    by (simp add: resolve_Ping evening_targets close closing_evening del: deliverEach.simps)
  then show ?thesis by (simp add: ready_def idle_def)
qed

text \<open>Alice cannot be opened, Bob can: the run has no sleep of \<open>sendDelay\<close> between the two
  targets.\<close>

theorem targets_in_order_counterexample:
  "contactsOf morning = [''Alice'', ''Bob'']
   \<and> StatusUpdate (ChatOpenFailed ''Alice'') SError
        \<in> set (trace (snd (sendScheduledMessage bobPage morning ready)))
   \<and> StatusUpdate (ChatOpened ''Bob'') SSuccess
        \<in> set (trace (snd (sendScheduledMessage bobPage morning ready)))
   \<and> Sleep (sendDelay ready) \<notin> set (trace (snd (sendScheduledMessage bobPage morning ready)))"
  by (simp add: morning_run aliceTrace_def bobOpenTrace_def bobSendTrace_def closingTrace_def)



subsection \<open>Partial success\<close>

lemma not_due_once_sent: "\<not> shouldSendMessage e h (x\<lparr>sent := True, lastSentDate := d\<rparr>) t"
  by (simp add: shouldSendMessage_def)

lemma findIndex_first:
  "\<forall>y\<in>set before. \<not> P y \<Longrightarrow> P x \<Longrightarrow> findIndex P (before @ x # after) = Some (length before)"
  by (induction before) simp_all

text \<open>What \<open>markScheduleSent\<close> does to the stored list: when the storage is there, the
  context valid, and the read and the write go through, the first record with the id is
  marked and the others are left as they are; when one of the four fails, the stored list is
  left as it is.\<close>

lemma markScheduleSent_store:
  fixes e :: env and i :: string and s :: sched
  defines "h \<equiv> trace s @ [MarkSent i]"
  shows "storageAvailable e h \<Longrightarrow> contextValid e h \<Longrightarrow> storageGetError e h = None \<Longrightarrow>
         storageSetError e h = None \<Longrightarrow>
         store s = before @ x # after \<Longrightarrow> sid x = i \<Longrightarrow> \<forall>y\<in>set before. sid y \<noteq> i \<Longrightarrow>
         store (snd (markScheduleSent e i s)) =
           before @ x\<lparr>sent := True, lastSentDate := Some (todayString e h)\<rparr> # after"
    and "\<not> storageAvailable e h \<or> \<not> contextValid e h \<or> storageGetError e h \<noteq> None
           \<or> storageSetError e h \<noteq> None \<Longrightarrow>
         store (snd (markScheduleSent e i s)) = store s"
proof -
  assume ok: "storageAvailable e h" "contextValid e h" "storageGetError e h = None"
    "storageSetError e h = None"
    and st: "store s = before @ x # after" "sid x = i" "\<forall>y\<in>set before. sid y \<noteq> i"
  have "findIndex (\<lambda>y. sid y = i) (before @ x # after) = Some (length before)"
    using st by (intro findIndex_first) simp_all
  then show "store (snd (markScheduleSent e i s)) =
           before @ x\<lparr>sent := True, lastSentDate := Some (todayString e h)\<rparr> # after"
    using ok st
    by (simp add: markScheduleSent_def updateSchedule_def getSchedules_def saveSchedules_def
        saveFallbackSchedules_def Let_def emit_def h_def)
next
  assume "\<not> storageAvailable e h \<or> \<not> contextValid e h \<or> storageGetError e h \<noteq> None
           \<or> storageSetError e h \<noteq> None"
  then show "store (snd (markScheduleSent e i s)) = store s"
    by (auto simp: markScheduleSent_def updateSchedule_def getSchedules_def saveSchedules_def
        saveFallbackSchedules_def getFallbackSchedules_def Let_def emit_def h_def
        split: option.splits)
qed

lemma store_handlePostSendAction [simp]:
  "store (handlePostSendAction e s) = store s"
  by (rule settled_fields(1)) simp

lemma trace_handlePostSendAction:
  "set (trace s) \<subseteq> set (trace (handlePostSendAction e s))"
  by (auto simp: handlePostSendAction_def Let_def emit_def)

lemma trace_markScheduleSent:
  "MarkSent i \<in> set (trace (snd (markScheduleSent e i s)))"
  by (simp add: markScheduleSent_def updateSchedule_def getSchedules_def saveSchedules_def
      saveFallbackSchedules_def Let_def emit_def split: option.splits)

text \<open>
  C10 (as the code has it). The success flag of the loop over a schedule's targets, once set
  by one target, stays set whatever happens to the targets after it. When the loop ends with
  the flag set (some target received the message, whatever happened to the others),
  \<open>sendScheduledMessage\<close> calls \<open>markScheduleSent\<close>, reports success, emits the \<open>messageSent\<close>
  notification and runs the post-send action. What the call of \<open>markScheduleSent\<close> achieves
  is up to the store. When the extension storage is there, the context is valid, and the
  read and the write go through, the first stored record with the schedule's id gets
  \<open>sent\<close> and today's date, nothing else in the stored list changes (no target's failure is
  recorded), and a record so marked is never due again. When one of the four fails, the
  stored list stays as it was, the schedule in it unsent.
\<close>

theorem partial_success_marks_sent:
  fixes e :: env and schedule :: schedule and s s1 s2 :: sched and messageText :: string
  defines "h \<equiv> trace s2 @ [MarkSent (sid schedule)]"
  assumes free: "\<not> isSending s"
    and msg: "resolveMessageText e schedule (s\<lparr>isSending := True\<rparr>) = (messageText, s1)"
              "messageText \<noteq> []"
    and targets: "contactsOf schedule \<noteq> []"
    and got: "contactsLoop e messageText (contactsOf schedule) 0 False s1 = (Inr True, s2)"
  shows "sendScheduledMessage e schedule s =
           (JUndefined,
            (handlePostSendAction e
               (emit (MessageSent (sid schedule) (time schedule) (messagePreview messageText))
                  (updateStatus MessageSentOk SSuccess
                     (snd (markScheduleSent e (sid schedule) s2)))))\<lparr>isSending := False\<rparr>)
       \<and> MarkSent (sid schedule) \<in> set (trace (snd (sendScheduledMessage e schedule s)))
       \<and> MessageSent (sid schedule) (time schedule) (messagePreview messageText)
            \<in> set (trace (snd (sendScheduledMessage e schedule s)))
       \<and> (storageAvailable e h \<and> contextValid e h \<and> storageGetError e h = None
            \<and> storageSetError e h = None
            \<and> store s = before @ x # after \<and> sid x = sid schedule
            \<and> (\<forall>y\<in>set before. sid y \<noteq> sid schedule) \<longrightarrow>
          store (snd (sendScheduledMessage e schedule s)) =
            before @ x\<lparr>sent := True, lastSentDate := Some (todayString e h)\<rparr> # after)
       \<and> (\<not> storageAvailable e h \<or> \<not> contextValid e h \<or> storageGetError e h \<noteq> None
            \<or> storageSetError e h \<noteq> None \<longrightarrow>
          store (snd (sendScheduledMessage e schedule s)) = store s)
       \<and> \<not> shouldSendMessage e h' (x\<lparr>sent := True, lastSentDate := d\<rparr>) t
       \<and> fst (contactsLoop e messageText names 0 True s0) = Inr True"
proof -
  have once: "fst (contactsLoop e messageText names 0 True s0) = Inr True"
    using deliverEach_or[of "switchScheduled e" "sendScheduled e messageText" names True s0]
    by (simp add: contactsLoop_deliverEach del: deliverEach.simps)
  let ?marked = "snd (markScheduleSent e (sid schedule) s2)"
  let ?end = "handlePostSendAction e
               (emit (MessageSent (sid schedule) (time schedule) (messagePreview messageText))
                  (updateStatus MessageSentOk SSuccess ?marked))"
  have run: "sendScheduledMessage e schedule s = (JUndefined, ?end\<lparr>isSending := False\<rparr>)"
    using free msg targets got
    by (simp add: sendScheduledMessage_def afterDelivery_def)
  have "store s1 = store s"
    using store_resolveMessageText[of e schedule "s\<lparr>isSending := True\<rparr>"] msg(1) by simp
  moreover have "store s2 = store s1"
    using store_contactsLoop[of e messageText "contactsOf schedule" False s1] got by simp
  ultimately have st: "store s2 = store s" by simp
  have final: "store (snd (sendScheduledMessage e schedule s)) = store ?marked"
    by (simp add: run)
  have ev: "set (trace (emit (MessageSent (sid schedule) (time schedule)
                   (messagePreview messageText)) (updateStatus MessageSentOk SSuccess ?marked)))
            \<subseteq> set (trace (snd (sendScheduledMessage e schedule s)))"
    using trace_handlePostSendAction[of _ e] by (simp add: run)
  have called: "MarkSent (sid schedule) \<in> set (trace (snd (sendScheduledMessage e schedule s)))"
    using ev trace_markScheduleSent[of "sid schedule" e s2] by (auto simp: prims)
  have told: "MessageSent (sid schedule) (time schedule) (messagePreview messageText)
            \<in> set (trace (snd (sendScheduledMessage e schedule s)))"
    using ev by (auto simp: prims)
  have accepted: "store (snd (sendScheduledMessage e schedule s)) =
            before @ x\<lparr>sent := True, lastSentDate := Some (todayString e h)\<rparr> # after"
    if "storageAvailable e h \<and> contextValid e h \<and> storageGetError e h = None
            \<and> storageSetError e h = None
            \<and> store s = before @ x # after \<and> sid x = sid schedule
            \<and> (\<forall>y\<in>set before. sid y \<noteq> sid schedule)"
    unfolding final h_def
    using that by (intro markScheduleSent_store(1)) (simp_all add: st h_def)
  have refused: "store (snd (sendScheduledMessage e schedule s)) = store s"
    if "\<not> storageAvailable e h \<or> \<not> contextValid e h \<or> storageGetError e h \<noteq> None
            \<or> storageSetError e h \<noteq> None"
    unfolding final st[symmetric]
    using that by (intro markScheduleSent_store(2)) (simp add: h_def)
  show ?thesis
    using run called told accepted refused once by (simp add: not_due_once_sent)
qed

theorem partial_success_marks_sent_witness:
  "\<not> isSending ready \<and> contactsOf morning = [''Alice'', ''Bob'']
   \<and> fst (switchScheduled bobPage ''Alice'' (ready\<lparr>isSending := True\<rparr>)) = False
   \<and> store ready = [] @ morning # []
   \<and> store (snd (sendScheduledMessage bobPage morning ready)) =
       [morning\<lparr>sent := True, lastSentDate := Some ''Mon Nov 02 2026''\<rparr>]
   \<and> MarkSent (sid morning) \<in> set (trace (snd (sendScheduledMessage bobPage morning ready)))
   \<and> MessageSent (sid morning) ''09:00'' ''Ping''
        \<in> set (trace (snd (sendScheduledMessage bobPage morning ready)))"
proof -
  let ?s2 = "ready\<lparr>isSending := True, trace := aliceTrace @ bobOpenTrace @ bobSendTrace,
                   lastSendTime := 100000\<rparr>"
  have loop: "contactsLoop bobPage ''Ping'' (contactsOf morning) 0 False (ready\<lparr>isSending := True\<rparr>) =
              (Inr True, ?s2)"
    by (simp add: contactsLoop_deliverEach morning_targets del: deliverEach.simps)
  have res: "resolveMessageText bobPage morning (ready\<lparr>isSending := True\<rparr>) =
             (''Ping'', ready\<lparr>isSending := True\<rparr>)"
    by (rule resolve_Ping)
  note inst = partial_success_marks_sent[OF _ res _ _ loop,
      where h' = "[]" and x = morning and d = None and t = "''09:00''"
        and before = "[]" and after = "[]"]
  have b: "store (snd (sendScheduledMessage bobPage morning ready)) =
       [morning\<lparr>sent := True, lastSentDate := Some ''Mon Nov 02 2026''\<rparr>]"
    using inst[THEN conjunct2, THEN conjunct2, THEN conjunct2, THEN conjunct1] by simp
  have c: "MarkSent (sid morning) \<in> set (trace (snd (sendScheduledMessage bobPage morning ready)))"
    using inst[THEN conjunct2, THEN conjunct1] by simp
  have d: "MessageSent (sid morning) ''09:00'' ''Ping''
        \<in> set (trace (snd (sendScheduledMessage bobPage morning ready)))"
    using inst[THEN conjunct2, THEN conjunct2, THEN conjunct1]
    by (simp add: messagePreview_def substring0_def)
  show ?thesis
    using b c d by (simp add: switch_Alice)
qed

lemma stalePage_obs [simp]:
  "dateNow stalePage h = 100000"
  "findMessageInputBox stalePage h = Some 7"
  "findSearchInput stalePage h =
     (if h \<noteq> [] \<and> last h = StatusUpdate (OpeningChat ''Bob'') SWorking then Some 3 else None)"
  "isSearchBox stalePage h el = (el = 3)"
  "content stalePage h el =
     (if el = 7 \<and> Dom (KeyDown 7 CtrlV) \<in> set h \<and> Dom (KeyDown 7 Enter) \<notin> set h
      then codeUnits ''Ping'' else [])"
  "pageNodes stalePage h = (if Dom (KeyDown 7 Enter) \<in> set h then [sentPing] else [])"
  "clipboardWriteOk stalePage h t = True"
  "execInsertTextOk stalePage h = True"
  "storageAvailable stalePage h = True"
  "contextValid stalePage h = (Dom (KeyDown 7 Enter) \<notin> set h)"
  "localStorageOk stalePage h = True"
  "todayString stalePage h = ''Mon Nov 02 2026''"
  "postSendSetting stalePage h = None"
  by (simp_all add: stalePage_def)

lemma stale_targets:
  "deliverEach (switchScheduled stalePage) (sendScheduled stalePage ''Ping'') [''Alice'', ''Bob'']
     False (ready\<lparr>isSending := True\<rparr>) =
   (True, ready\<lparr>isSending := True, trace := aliceTrace @ bobOpenTrace @ bobSendTrace,
             lastSendTime := 100000\<rparr>)"
proof -
  have a: "switchScheduled stalePage ''Alice'' s = (False, s\<lparr>trace := trace s @ aliceTrace\<rparr>)"
    if "autoRetry s" for s
    using that by (simp add: switch_defs aliceTrace_def)
  have b: "switchScheduled stalePage ''Bob'' s = (True, s\<lparr>trace := trace s @ bobOpenTrace\<rparr>)"
    if "autoRetry s" for s
    using that by (simp add: switch_defs bobOpenTrace_def)
  have c: "sendScheduled stalePage ''Ping'' s =
             (True, s\<lparr>trace := trace s @ bobSendTrace, lastSendTime := 100000\<rparr>)"
    if "lastSendTime s = 0" "Dom (KeyDown 7 Enter) \<notin> set (trace s)" for s
    using that
    by (simp add: sendScheduled_def smartRetry_def smartRetryLoop.simps[of _ 2 "Suc 0"]
        injectOp_def send_defs succeeded_def bobSendTrace_def)
  show ?thesis
    by (simp add: a b c no_Enter_yet)
qed

text \<open>The same delivery when the extension context is invalidated at the submit: Alice
  cannot be opened, Bob receives the message, \<open>markScheduleSent\<close> is called and the success
  is announced, but the store reads and writes its mirror only. The stored record is as it
  was, unsent, and is due at 09:00 as before.\<close>

theorem partial_success_marks_sent_counterexample:
  "contactsOf morning = [''Alice'', ''Bob'']
   \<and> fst (switchScheduled stalePage ''Alice'' (ready\<lparr>isSending := True\<rparr>)) = False
   \<and> store ready = [morning] \<and> \<not> sent morning
   \<and> sendScheduledMessage stalePage morning ready =
       (JUndefined,
        ready\<lparr>lastSendTime := 100000,
              mirror := [morning\<lparr>sent := True, lastSentDate := Some ''Mon Nov 02 2026''\<rparr>],
              trace := aliceTrace @ bobOpenTrace @ bobSendTrace @ closingTrace\<rparr>)
   \<and> store (snd (sendScheduledMessage stalePage morning ready)) = [morning]
   \<and> shouldSendMessage bobPage [] morning ''09:00''"
proof -
  let ?s2 = "ready\<lparr>isSending := True, trace := aliceTrace @ bobOpenTrace @ bobSendTrace,
                   lastSendTime := 100000\<rparr>"
  have alice: "fst (switchScheduled stalePage ''Alice'' (ready\<lparr>isSending := True\<rparr>)) = False"
    by (simp add: switch_defs)
  have gone: "Dom (KeyDown 7 Enter) \<in> set bobSendTrace"
    by (simp add: bobSendTrace_def)
  have close: "afterDelivery stalePage morning ''Ping'' True ?s2 =
     ?s2\<lparr>trace := (aliceTrace @ bobOpenTrace @ bobSendTrace) @ closingTrace,
         mirror := [morning\<lparr>sent := True, lastSentDate := Some ''Mon Nov 02 2026''\<rparr>]\<rparr>"
    by (simp add: afterDelivery_def markScheduleSent_def updateSchedule_def getSchedules_def
        getFallbackSchedules_def saveSchedules_def saveFallbackSchedules_def
        handlePostSendAction_def messagePreview_def substring0_def prims Let_def gone
        closingTrace_def)
  have "sendScheduledMessage stalePage morning ready =
     (JUndefined,
      (?s2\<lparr>trace := (aliceTrace @ bobOpenTrace @ bobSendTrace) @ closingTrace,
         mirror := [morning\<lparr>sent := True, lastSentDate := Some ''Mon Nov 02 2026''\<rparr>]\<rparr>)
      \<lparr>isSending := False\<rparr>)"
    using sendScheduledMessage_run[of ready stalePage morning]
    by (simp add: resolveMessageText_def stale_targets close del: deliverEach.simps)
  then have run: "sendScheduledMessage stalePage morning ready =
       (JUndefined,
        ready\<lparr>lastSendTime := 100000,
              mirror := [morning\<lparr>sent := True, lastSentDate := Some ''Mon Nov 02 2026''\<rparr>],
              trace := aliceTrace @ bobOpenTrace @ bobSendTrace @ closingTrace\<rparr>)"
    by (simp add: ready_def idle_def)
  have due: "shouldSendMessage bobPage [] morning ''09:00''"
    by (simp add: shouldSendMessage_def isWhatsAppConnected_def)
  show ?thesis
    using alice due by (simp add: run)
qed


subsection \<open>The scheduler loop\<close>

text \<open>The one thing that the \<open>try\<close> block of the loop can throw is the \<open>TypeError\<close> of the
  preview, an \<open>Error\<close> object; its \<open>catch\<close> reads the message of that without throwing, so
  nothing ever leaves the loop.\<close>

lemma processSchedule_step:
  "processSchedule e n schedule s =
     (None,
      case message schedule of
        None \<Rightarrow> updateStatus (FailedToSend (cannotRead ''undefined'' ''substring'')) SError s
      | Some m \<Rightarrow>
          (let s2 = snd (sendScheduledMessage e schedule
                           (updateStatus (SendingPreview (take 30 m)) SWorking s))
           in if 1 < n then sleep 3000 s2 else s2))"
  by (simp add: processSchedule_def tryDelivery_def interpolated_def substring0_def Let_def
      case_prod_beta split: option.splits)

lemma processPending_fold:
  "processPending e n xs s = (None, fold (\<lambda>x t. snd (processSchedule e n x t)) xs s)"
  by (induction xs arbitrary: s) (simp_all add: processSchedule_step)

lemma tick_runs_loop:
  assumes "\<not> isCheckingSchedules s" "storageReady e (trace s)" "contextValid e (trace s)"
    and "dueNow e s \<noteq> []"
  shows "checkSchedules e s =
     (fold (\<lambda>x t. snd (processSchedule e (length (dueNow e s)) x t)) (dueNow e s)
        (updateStatus (SendingCount (length (dueNow e s))) SWorking (tickStart e s)))
     \<lparr>isCheckingSchedules := False\<rparr>"
  using assms
  by (simp add: checkSchedules_def dueNow_def tickStart_def Let_def case_prod_beta
      processPending_fold del: processPending.simps)

text \<open>
  C8. A tick that reaches the loop over its due schedules processes every one of them, in
  order, each from the state that the one before it left, whatever happened to those before
  it. An error thrown while one of them is processed (the \<open>TypeError\<close> of a record without
  a message, the one error that the loop's \<open>try\<close> block can throw) is caught by the loop's
  own \<open>catch\<close>: the failure is reported as a status event of type \<open>error\<close> carrying the
  error's message, and the loop goes on with every due schedule that remains. Nothing
  propagates: no run of the loop, over whatever schedules, ends with an error, and the tick
  ends in a state with its flag released.
\<close>

theorem errors_do_not_block:
  fixes e :: env and s :: sched
  defines "n \<equiv> length (dueNow e s)"
  defines "failure \<equiv> StatusUpdate (FailedToSend (cannotRead ''undefined'' ''substring'')) SError"
  defines "process \<equiv> (\<lambda>x t.
             case message x of
               None \<Rightarrow> emit failure t
             | Some m \<Rightarrow>
                 (let t' = snd (sendScheduledMessage e x
                                  (emit (StatusUpdate (SendingPreview (take 30 m)) SWorking) t))
                  in if 1 < n then emit (Sleep 3000) t' else t'))"
  defines "start \<equiv> emit (StatusUpdate (SendingCount n) SWorking) (tickStart e s)"
  assumes tick: "\<not> isCheckingSchedules s" "storageReady e (trace s)" "contextValid e (trace s)"
    and due: "dueNow e s \<noteq> []"
  shows "checkSchedules e s = (fold process (dueNow e s) start)\<lparr>isCheckingSchedules := False\<rparr>
       \<and> (dueNow e s = before @ schedule # rest \<and> message schedule = None \<longrightarrow>
            tryDelivery e n schedule t =
              (Inl (ErrorObject (cannotRead ''undefined'' ''substring'')), t)
            \<and> checkSchedules e s =
                (fold process rest (emit failure (fold process before start)))
                \<lparr>isCheckingSchedules := False\<rparr>)
       \<and> fst (processPending e k pending t) = None
       \<and> \<not> isCheckingSchedules (checkSchedules e s)"
proof -
  have step: "(\<lambda>x t. snd (processSchedule e n x t)) = process"
    by (intro ext)
       (simp add: processSchedule_step process_def failure_def prims Let_def
          split: option.splits)
  from tick_runs_loop[OF tick due]
  have run: "checkSchedules e s =
          (fold process (dueNow e s) start)\<lparr>isCheckingSchedules := False\<rparr>"
    unfolding n_def[symmetric] step start_def updateStatus_def .
  have caught: "tryDelivery e n schedule t =
              (Inl (ErrorObject (cannotRead ''undefined'' ''substring'')), t)
            \<and> checkSchedules e s =
                (fold process rest (emit failure (fold process before start)))
                \<lparr>isCheckingSchedules := False\<rparr>"
    if "dueNow e s = before @ schedule # rest \<and> message schedule = None"
  proof -
    have "process schedule u = emit failure u" for u
      using that by (simp add: process_def)
    then have "fold process (before @ schedule # rest) start =
               fold process rest (emit failure (fold process before start))"
      by simp
    then show ?thesis
      using that by (simp add: run tryDelivery_def)
  qed
  have never: "fst (processPending e k pending t) = None"
    by (simp add: processPending_fold)
  have released: "\<not> isCheckingSchedules (checkSchedules e s)"
    by (simp only: run) simp
  show ?thesis
    using run caught never released by blast
qed

lemma badFirst_due:
  "dueNow bobPage badFirst = [] @ unwritten # [laterDue]"
  by (simp add: dueNow_def tickStart_def getSchedules_def shouldSendMessage_def
      isWhatsAppConnected_def badFirst_def idle_def unwritten_def morning_def laterDue_def)

lemma badFirst_start:
  "tickStart bobPage badFirst =
     badFirst\<lparr>isCheckingSchedules := True, trace := [StatusUpdate NextMessage SInfo]\<rparr>"
  by (simp add: tickStart_def getSchedules_def updateNextMessageStatus_def prims
      badFirst_def idle_def unwritten_def morning_def)

theorem errors_do_not_block_witness:
  "\<not> isCheckingSchedules badFirst \<and> storageReady bobPage (trace badFirst)
   \<and> contextValid bobPage (trace badFirst)
   \<and> dueNow bobPage badFirst = [] @ unwritten # [laterDue]
   \<and> message unwritten = None
   \<and> checkSchedules bobPage badFirst =
       badFirst\<lparr>lastSendTime := 100000,
                store := [unwritten,
                          laterDue\<lparr>sent := True, lastSentDate := Some ''Mon Nov 02 2026''\<rparr>],
                mirror := [unwritten,
                           laterDue\<lparr>sent := True, lastSentDate := Some ''Mon Nov 02 2026''\<rparr>],
                trace := [StatusUpdate NextMessage SInfo,
                          StatusUpdate (SendingCount 2) SWorking,
                          StatusUpdate (FailedToSend (cannotRead ''undefined'' ''substring''))
                            SError,
                          StatusUpdate (SendingPreview ''Ping'') SWorking]
                         @ pastingTrace @ submitTrace
                         @ [MarkSent ''1730000000001'', StatusUpdate MessageSentOk SSuccess,
                            MessageSent ''1730000000001'' ''09:00'' ''Ping'',
                            PostSendTimer Refresh, Sleep 3000]\<rparr>"
proof -
  have tick: "\<not> isCheckingSchedules badFirst" "storageReady bobPage (trace badFirst)"
    "contextValid bobPage (trace badFirst)"
    by (simp_all add: badFirst_def idle_def)
  have thrown: "message unwritten = None"
    by (simp add: unwritten_def)
  define s0 where
    "s0 = badFirst\<lparr>isCheckingSchedules := True,
                   trace := [StatusUpdate NextMessage SInfo,
                             StatusUpdate (SendingCount 2) SWorking,
                             StatusUpdate (FailedToSend (cannotRead ''undefined'' ''substring''))
                               SError,
                             StatusUpdate (SendingPreview ''Ping'') SWorking]\<rparr>"
  let ?s2 = "s0\<lparr>isSending := True, trace := trace s0 @ pastingTrace @ submitTrace,
                lastSendTime := 100000\<rparr>"
  let ?closing = "[MarkSent ''1730000000001'', StatusUpdate MessageSentOk SSuccess,
                   MessageSent ''1730000000001'' ''09:00'' ''Ping'', PostSendTimer Refresh]"
  let ?marked = "[unwritten, laterDue\<lparr>sent := True, lastSentDate := Some ''Mon Nov 02 2026''\<rparr>]"
  have f: "lastSendTime s0 = 0" "\<not> isSending s0" "store s0 = [unwritten, laterDue]"
    "Dom (KeyDown 7 Enter) \<notin> set (trace s0)"
    by (simp_all add: s0_def badFirst_def idle_def)
  have ids: "sid unwritten \<noteq> ''1730000000001''"
    by (simp add: unwritten_def morning_def)
  have send: "smartRetry (injectOp bobPage ''Ping'') 2 (s0\<lparr>isSending := True\<rparr>) =
              (Inr (JBool True), ?s2)"
    using retry_Ping[of "s0\<lparr>isSending := True\<rparr>"] f by simp
  have close: "afterDelivery bobPage laterDue ''Ping'' True ?s2 =
     ?s2\<lparr>trace := (trace s0 @ pastingTrace @ submitTrace) @ ?closing,
         store := ?marked, mirror := ?marked\<rparr>"
    using f ids
    by (simp add: afterDelivery_def markScheduleSent_def updateSchedule_def getSchedules_def
        saveSchedules_def saveFallbackSchedules_def handlePostSendAction_def
        messagePreview_def substring0_def prims Let_def)
  have deliver: "sendScheduledMessage bobPage laterDue s0 =
     (JUndefined,
      (?s2\<lparr>trace := (trace s0 @ pastingTrace @ submitTrace) @ ?closing,
           store := ?marked, mirror := ?marked\<rparr>)\<lparr>isSending := False\<rparr>)"
    using sendScheduledMessage_run[of s0 bobPage laterDue] f
    by (simp add: resolve_Ping send close succeeded_def del: deliverEach.simps)
  have start: "emit (StatusUpdate (SendingPreview ''Ping'') SWorking)
                 (emit (StatusUpdate (FailedToSend (cannotRead ''undefined'' ''substring''))
                          SError)
                    (emit (StatusUpdate (SendingCount (Suc (Suc 0))) SWorking)
                       (tickStart bobPage badFirst)))
               = s0"
    by (simp add: badFirst_start emit_def s0_def numeral_2_eq_2)
  have ne: "dueNow bobPage badFirst \<noteq> []"
    by (simp add: badFirst_due)
  have inst: "checkSchedules bobPage badFirst =
     (fold (\<lambda>x t.
              case message x of
                None \<Rightarrow>
                  emit (StatusUpdate (FailedToSend (cannotRead ''undefined'' ''substring''))
                          SError) t
              | Some m \<Rightarrow>
                  (let t' = snd (sendScheduledMessage bobPage x
                                   (emit (StatusUpdate (SendingPreview (take 30 m)) SWorking) t))
                   in if 1 < length (dueNow bobPage badFirst) then emit (Sleep 3000) t' else t'))
        [laterDue]
        (emit (StatusUpdate (FailedToSend (cannotRead ''undefined'' ''substring'')) SError)
           (fold (\<lambda>x t.
              case message x of
                None \<Rightarrow>
                  emit (StatusUpdate (FailedToSend (cannotRead ''undefined'' ''substring''))
                          SError) t
              | Some m \<Rightarrow>
                  (let t' = snd (sendScheduledMessage bobPage x
                                   (emit (StatusUpdate (SendingPreview (take 30 m)) SWorking) t))
                   in if 1 < length (dueNow bobPage badFirst) then emit (Sleep 3000) t' else t'))
              []
              (emit (StatusUpdate (SendingCount (length (dueNow bobPage badFirst))) SWorking)
                 (tickStart bobPage badFirst)))))
     \<lparr>isCheckingSchedules := False\<rparr>"
    using errors_do_not_block[OF tick ne, of "[]" unwritten "[laterDue]"] badFirst_due thrown
    by blast
  have "checkSchedules bobPage badFirst =
     (emit (Sleep 3000) (snd (sendScheduledMessage bobPage laterDue s0)))
     \<lparr>isCheckingSchedules := False\<rparr>"
    unfolding inst
    by (simp add: badFirst_due start)
  then have "checkSchedules bobPage badFirst =
     (emit (Sleep 3000)
        ((?s2\<lparr>trace := (trace s0 @ pastingTrace @ submitTrace) @ ?closing,
             store := ?marked, mirror := ?marked\<rparr>)\<lparr>isSending := False\<rparr>))
     \<lparr>isCheckingSchedules := False\<rparr>"
    by (simp only: deliver snd_conv)
  then show ?thesis
    using tick thrown badFirst_due
    by (simp add: emit_def s0_def badFirst_def idle_def)
qed

lemma twoDue_pending:
  "filter (\<lambda>x. shouldSendMessage bobPage h x ''09:00'') [morning, laterDue] = [morning, laterDue]"
  by (simp add: shouldSendMessage_def isWhatsAppConnected_def)

text \<open>
  C9 (a defect of the code). With two schedules due in the same minute the tick delivers them
  one after the other in stored order, and the 3 s settle delay follows each delivery, the
  last one included: the tick ends with that sleep, where the comment in the loop and the
  specification have a delay between consecutive deliveries only.
\<close>

theorem settle_delay_after_last:
  "checkSchedules bobPage twoDue =
     (sleep 3000
        (snd (sendScheduledMessage bobPage laterDue
           (updateStatus (SendingPreview ''Ping'') SWorking
              (sleep 3000
                 (snd (sendScheduledMessage bobPage morning
                    (updateStatus (SendingPreview ''Ping'') SWorking
                       (updateStatus (SendingCount 2) SWorking
                          (updateStatus NextMessage SInfo
                             (twoDue\<lparr>isCheckingSchedules := True\<rparr>)))))))))))
     \<lparr>isCheckingSchedules := False\<rparr>
   \<and> last (trace (checkSchedules bobPage twoDue)) = Sleep 3000"
proof -
  have st: "\<not> isCheckingSchedules twoDue" "store twoDue = [morning, laterDue]"
    by (simp_all add: twoDue_def idle_def)
  have unsent: "filter (\<lambda>x. \<not> sent x) [morning, laterDue] \<noteq> []"
    by simp
  define sa where "sa = updateStatus NextMessage SInfo (twoDue\<lparr>isCheckingSchedules := True\<rparr>)"
  have a: "updateNextMessageStatus [morning, laterDue] (twoDue\<lparr>isCheckingSchedules := True\<rparr>) = sa"
    using unsent by (simp add: updateNextMessageStatus_def sa_def del: filter.simps)
  have pend: "filter (\<lambda>x. shouldSendMessage bobPage (trace sa) x ''09:00'') [morning, laterDue] =
              [morning, laterDue]"
    by (rule twoDue_pending)
  have body: "processPending bobPage (Suc (Suc 0)) [morning, laterDue]
                (updateStatus (SendingCount (Suc (Suc 0))) SWorking sa) =
     (None,
      sleep 3000
        (snd (sendScheduledMessage bobPage laterDue
           (updateStatus (SendingPreview ''Ping'') SWorking
              (sleep 3000
                 (snd (sendScheduledMessage bobPage morning
                    (updateStatus (SendingPreview ''Ping'') SWorking
                       (updateStatus (SendingCount 2) SWorking sa)))))))))"
    by (simp add: processSchedule_step numeral_2_eq_2)
  have run: "checkSchedules bobPage twoDue =
     (sleep 3000
        (snd (sendScheduledMessage bobPage laterDue
           (updateStatus (SendingPreview ''Ping'') SWorking
              (sleep 3000
                 (snd (sendScheduledMessage bobPage morning
                    (updateStatus (SendingPreview ''Ping'') SWorking
                       (updateStatus (SendingCount 2) SWorking
                          (updateStatus NextMessage SInfo
                             (twoDue\<lparr>isCheckingSchedules := True\<rparr>)))))))))))
     \<lparr>isCheckingSchedules := False\<rparr>"
    unfolding sa_def[symmetric]
    by (simp add: checkSchedules_def getSchedules_def st a pend body
        Let_def del: filter.simps processPending.simps)
  show ?thesis
    unfolding run by (simp add: sleep_def emit_def)
qed

subsection \<open>The send primitive\<close>

lemma deafPage_obs [simp]:
  "dateNow deafPage h = 100000"
  "findMessageInputBox deafPage h = Some 7"
  "content deafPage h el = codeUnits ''Ping''"
  "pageNodes deafPage h = []"
  "clipboardWriteOk deafPage h t = True"
  "execInsertTextOk deafPage h = True"
  by (simp_all add: deafPage_def silentPage_def)

lemma deafPage_never_confirms:
  "waitForMessageSent deafPage messageText s =
     (False, s\<lparr>trace := trace s @ replicate 15 (Sleep 200)\<rparr>)"
proof -
  have "List.find (pollConfirms deafPage messageText s) [0..<15] = None"
    by (simp add: find_None_iff pollConfirms_def messageFound_def)
  then show ?thesis by (simp add: waitForMessageSent_find)
qed

text \<open>
  C3 (a defect of the code). On a page that takes the text but never shows the message, the
  clipboard method and the insertion method each submit and see \<open>waitForMessageSent\<close> time
  out; the typing method then submits a third time, calls no verifier, stamps
  \<open>lastSendTime\<close> and returns true. The verifier returns false in every state of that page.
\<close>

theorem unverified_send_succeeds:
  "injectAndSendMessage deafPage ''Ping'' idle =
     (True, idle\<lparr>lastSendTime := 100000,
                  trace := pasteTrace @ replicate 15 (Sleep 200)
                           @ insertTrace @ replicate 15 (Sleep 200) @ typingTrace\<rparr>)
   \<and> lastSendTime idle = 0
   \<and> (\<forall>s. \<not> fst (waitForMessageSent deafPage ''Ping'' s))"
proof -
  have "injectAndSendMessage deafPage ''Ping'' idle =
     (True, idle\<lparr>lastSendTime := 100000,
                  trace := pasteTrace @ replicate 15 (Sleep 200)
                           @ insertTrace @ replicate 15 (Sleep 200) @ typingTrace\<rparr>)"
    by (simp add: injectAndSendMessage_def clipboardMethod_def insertionMethod_def
        typingMethod_def typeChar_def confirmSend_def deafPage_never_confirms pressEnter_def
        substring0_def sendCooldown_def prims idle_def pasteTrace_def insertTrace_def
        typingTrace_def del: replicate.simps)
  then show ?thesis
    by (simp add: deafPage_never_confirms idle_def)
qed

end
